theory Spec2Isabelle
  imports Complex_Main
begin

section \<open>The Umami API client (internal/umami/client.go)\<close>

subsection \<open>Strings\<close>

text \<open>
  Go strings are byte sequences; they are modelled as \<open>string\<close> (a list of bytes), and
  \<open>byte c\<close> is the value of a byte. \<open>strings.TrimSpace\<close> removes the leading and the
  trailing white space of a string, rune by rune, as \<open>unicode.IsSpace\<close> defines white
  space: the six ASCII characters (tab, line feed, vertical tab, form feed, carriage
  return, space), U+0085 and U+00A0 (two bytes each in UTF-8), and U+1680, U+2000 to
  U+200A, U+2028, U+2029, U+202F, U+205F and U+3000 (three bytes each). A byte that does
  not start one of these encodings is not white space (an invalid byte decodes to the
  replacement rune), so trimming stops there.
\<close>

definition byte :: "char \<Rightarrow> nat" where
  "byte c = of_char c"

definition isAsciiSpace :: "char \<Rightarrow> bool" where
  "isAsciiSpace c = (c = CHR 0x09 \<or> c = CHR 0x0A \<or> c = CHR 0x0B \<or> c = CHR 0x0C
                     \<or> c = CHR 0x0D \<or> c = CHR 0x20)"

definition isSpace2 :: "char \<Rightarrow> char \<Rightarrow> bool" where
  "isSpace2 a b = (a = CHR 0xC2 \<and> (b = CHR 0x85 \<or> b = CHR 0xA0))"

definition isSpace3 :: "char \<Rightarrow> char \<Rightarrow> char \<Rightarrow> bool" where
  "isSpace3 a b c =
     (a = CHR 0xE1 \<and> b = CHR 0x9A \<and> c = CHR 0x80
      \<or> a = CHR 0xE2 \<and> b = CHR 0x80
          \<and> (0x80 \<le> byte c \<and> byte c \<le> 0x8A \<or> c = CHR 0xA8 \<or> c = CHR 0xA9 \<or> c = CHR 0xAF)
      \<or> a = CHR 0xE2 \<and> b = CHR 0x81 \<and> c = CHR 0x9F
      \<or> a = CHR 0xE3 \<and> b = CHR 0x80 \<and> c = CHR 0x80)"

text \<open>Trimming at the front: the first rune is dropped as long as it is white space.\<close>

fun TrimLeftSpace :: "string \<Rightarrow> string" where
  "TrimLeftSpace [] = []"
| "TrimLeftSpace (a # s) =
     (if isAsciiSpace a then TrimLeftSpace s
      else
        (case s of
           [] \<Rightarrow> [a]
         | b # s' \<Rightarrow>
             if isSpace2 a b then TrimLeftSpace s'
             else
               (case s' of
                  [] \<Rightarrow> a # s
                | c # s'' \<Rightarrow> if isSpace3 a b c then TrimLeftSpace s'' else a # s)))"

text \<open>
  Trimming at the back, on the reversed string: the last rune is dropped as long as it
  is white space (its bytes come last byte first).
\<close>

fun TrimRightSpaceRev :: "string \<Rightarrow> string" where
  "TrimRightSpaceRev [] = []"
| "TrimRightSpaceRev (c # s) =
     (if isAsciiSpace c then TrimRightSpaceRev s
      else
        (case s of
           [] \<Rightarrow> [c]
         | b # s' \<Rightarrow>
             if isSpace2 b c then TrimRightSpaceRev s'
             else
               (case s' of
                  [] \<Rightarrow> c # s
                | a # s'' \<Rightarrow> if isSpace3 a b c then TrimRightSpaceRev s'' else c # s)))"

definition TrimSpace :: "string \<Rightarrow> string" where
  "TrimSpace s = rev (TrimRightSpaceRev (rev (TrimLeftSpace s)))"

text \<open>
  \<open>utf8.ValidString\<close>: the string is a sequence of well-formed UTF-8 encodings (no
  overlong form, no surrogate, nothing above U+10FFFF).
\<close>

definition cont :: "char \<Rightarrow> bool" where
  "cont c = (0x80 \<le> byte c \<and> byte c \<le> 0xBF)"

fun ValidString :: "string \<Rightarrow> bool" where
  "ValidString [] = True"
| "ValidString (a # s) =
     (if byte a < 0x80 then ValidString s
      else if 0xC2 \<le> byte a \<and> byte a \<le> 0xDF then
        (case s of b # s' \<Rightarrow> cont b \<and> ValidString s' | _ \<Rightarrow> False)
      else if 0xE0 \<le> byte a \<and> byte a \<le> 0xEF then
        (case s of
           b # c # s' \<Rightarrow>
             (if byte a = 0xE0 then 0xA0 \<le> byte b \<and> byte b \<le> 0xBF
              else if byte a = 0xED then 0x80 \<le> byte b \<and> byte b \<le> 0x9F
              else cont b)
             \<and> cont c \<and> ValidString s'
         | _ \<Rightarrow> False)
      else if 0xF0 \<le> byte a \<and> byte a \<le> 0xF4 then
        (case s of
           b # c # d # s' \<Rightarrow>
             (if byte a = 0xF0 then 0x90 \<le> byte b \<and> byte b \<le> 0xBF
              else if byte a = 0xF4 then 0x80 \<le> byte b \<and> byte b \<le> 0x8F
              else cont b)
             \<and> cont c \<and> cont d \<and> ValidString s'
         | _ \<Rightarrow> False)
      else False)"

text \<open>\<open>strings.TrimRight(s, "/")\<close> and \<open>strings.HasPrefix(s, "/")\<close>.\<close>

definition TrimRightSlash :: "string \<Rightarrow> string" where
  "TrimRightSlash s = rev (dropWhile (\<lambda>c. c = CHR ''/'') (rev s))"

definition HasPrefixSlash :: "string \<Rightarrow> bool" where
  "HasPrefixSlash s = (case s of [] \<Rightarrow> False | c # _ \<Rightarrow> c = CHR ''/'')"

subsection \<open>Decoded JSON values\<close>

text \<open>
  What \<open>json.Unmarshal\<close> into an \<open>interface{}\<close> yields: nil, bool, float64, string,
  \<open>[]interface{}\<close> or \<open>map[string]interface{}\<close>. A Go map is modelled as an association
  list with distinct keys; the order of the list is the order in which \<open>range\<close> visits
  the map (Go leaves that order open, the list fixes one).
\<close>

datatype json =
    JNull
  | JBool bool
  | JNumber real
  | JString string
  | JArray "json list"
  | JObject "(string \<times> json) list"

definition token_keys :: "string list" where
  "token_keys = [''token'', ''accessToken'', ''access_token'', ''jwt'', ''access_token'']"

text \<open>The first loop of the map case of \<open>findToken\<close>: the known keys, in order.\<close>

fun find_key :: "(string \<times> json) list \<Rightarrow> string list \<Rightarrow> string option" where
  "find_key t [] = None"
| "find_key t (k # ks) =
     (case map_of t k of
        Some (JString s) \<Rightarrow> if s \<noteq> [] then Some s else find_key t ks
      | _ \<Rightarrow> find_key t ks)"

text \<open>
  \<open>findToken\<close>: Go's result \<open>(s, true)\<close> is \<open>Some s\<close>, \<open>("", false)\<close> is \<open>None\<close>.
  \<open>findToken_vals\<close> is the loop \<open>for _, val := range t\<close> over a map,
  \<open>findToken_items\<close> the loop over a slice.
\<close>

fun findToken :: "json \<Rightarrow> string option"
  and findToken_vals :: "(string \<times> json) list \<Rightarrow> string option"
  and findToken_items :: "json list \<Rightarrow> string option" where
  "findToken (JString t) = (let s = TrimSpace t in if s \<noteq> [] then Some s else None)"
| "findToken (JObject t) =
     (case find_key t token_keys of
        Some s \<Rightarrow> Some s
      | None \<Rightarrow> findToken_vals t)"
| "findToken (JArray t) = findToken_items t"
| "findToken JNull = None"
| "findToken (JBool b) = None"
| "findToken (JNumber n) = None"
| "findToken_vals [] = None"
| "findToken_vals (kv # kvs) =
     (case findToken (snd kv) of
        Some s \<Rightarrow> Some s
      | None \<Rightarrow> findToken_vals kvs)"
| "findToken_items [] = None"
| "findToken_items (item # items) =
     (case findToken item of
        Some s \<Rightarrow> Some s
      | None \<Rightarrow> findToken_items items)"

subsection \<open>The HTTP environment\<close>

text \<open>
  A request as \<open>httpClient.Do\<close> receives it. The query is kept as the list of its
  parameters (\<open>url.Values.Encode\<close> is not modelled); numbers that the source formats with
  \<open>strconv\<close> are kept as numbers.
\<close>

datatype qval = QStr string | QInt int

datatype req_body = LoginPayload string string | JsonBody string

record request =
  rq_method :: string
  rq_url :: string
  rq_query :: "(string \<times> qval) list"
  rq_content_type :: "string option"
  rq_authorization :: "string option"
  rq_body :: "req_body option"

datatype http_result = TransportError | Response int string

datatype error =
    ErrTransport
  | ErrNewRequest
  | ErrMarshal
  | ErrLoginStatus int string
  | ErrLoginDecode
  | ErrTokenNotFound
  | ErrRequestFailed string string "(string \<times> qval) list" int string
  | ErrDecode

datatype Website = Website (ID: string) (Name: string) (Domain: string)

record StatValue =
  Value :: real
  Prev :: real

record WebsiteStats =
  Pageviews :: StatValue
  Visitors :: StatValue
  Visits :: StatValue
  Bounces :: StatValue
  Totaltime :: StatValue

record MetricEntry =
  X :: string
  Y :: real

text \<open>
  Everything outside the repository that the client calls: the upstream server and the
  transport (\<open>http_do n r\<close> is the outcome of the \<open>n\<close>-th call of \<open>httpClient.Do\<close>,
  made with request \<open>r\<close>), \<open>http.NewRequestWithContext\<close> (which fails on a malformed
  method or URL), the JSON decoders of the standard library, one per target type, and
  the clock (\<open>time.Now().UnixMilli()\<close> and \<open>time.Now().Unix()\<close> when \<open>n\<close> calls have
  been made).
\<close>

record env =
  http_do :: "nat \<Rightarrow> request \<Rightarrow> http_result"
  request_valid :: "string \<Rightarrow> string \<Rightarrow> bool"
  unmarshal :: "string \<Rightarrow> json option"
  decode_websites :: "string \<Rightarrow> Website list option"
  decode_stats :: "string \<Rightarrow> WebsiteStats option"
  decode_active :: "string \<Rightarrow> real option"
  decode_entries :: "string \<Rightarrow> MetricEntry list option"
  unix_milli :: "nat \<Rightarrow> int"
  unix_sec :: "nat \<Rightarrow> int"

text \<open>
  The client: its configuration, the cached token, and \<open>calls\<close>, the requests handed to
  \<open>httpClient.Do\<close> so far, oldest first (the environment's view of the client).
\<close>

record Client =
  baseURL :: string
  username :: string
  password :: string
  token :: string
  calls :: "request list"

definition send :: "env \<Rightarrow> request \<Rightarrow> Client \<Rightarrow> http_result \<times> Client" where
  "send e r c = (http_do e (length (calls c)) r, c\<lparr>calls := calls c @ [r]\<rparr>)"

subsection \<open>Login\<close>

definition login_request :: "Client \<Rightarrow> request" where
  "login_request c =
     \<lparr>rq_method = ''POST'', rq_url = baseURL c @ ''/api/auth/login'', rq_query = [],
      rq_content_type = Some ''application/json'', rq_authorization = None,
      rq_body = Some (LoginPayload (username c) (password c))\<rparr>"

definition Login :: "env \<Rightarrow> Client \<Rightarrow> (error + unit) \<times> Client" where
  "Login e c =
     (let req = login_request c in
      if \<not> request_valid e (rq_method req) (rq_url req) then (Inl ErrNewRequest, c)
      else
        (case send e req c of
           (TransportError, c1) \<Rightarrow> (Inl ErrTransport, c1)
         | (Response status body, c1) \<Rightarrow>
             if status \<ge> 400 then (Inl (ErrLoginStatus status body), c1)
             else
               (case unmarshal e body of
                  None \<Rightarrow>
                    (let trim = TrimSpace body in
                     if trim \<noteq> [] then (Inr (), c1\<lparr>token := trim\<rparr>)
                     else (Inl ErrLoginDecode, c1))
                | Some decoded \<Rightarrow>
                    (case findToken decoded of
                       Some tok \<Rightarrow> (Inr (), c1\<lparr>token := tok\<rparr>)
                     | None \<Rightarrow> (Inl ErrTokenNotFound, c1)))))"

definition ensureToken :: "env \<Rightarrow> Client \<Rightarrow> (error + unit) \<times> Client" where
  "ensureToken e c = (if token c \<noteq> [] then (Inr (), c) else Login e c)"

subsection \<open>doRequest\<close>

text \<open>
  The tail of \<open>doRequest\<close> after the response that counts has arrived: a status of 400
  or more is an error carrying the status and the body, otherwise the body is decoded
  into \<open>result\<close> when the caller passed one (\<open>None\<close> is Go's nil \<open>result\<close>).
\<close>

definition finish ::
  "string \<Rightarrow> request \<Rightarrow> (string \<Rightarrow> 'a option) option \<Rightarrow> int \<Rightarrow> string \<Rightarrow> error + 'a option" where
  "finish method req result status body =
     (if status \<ge> 400 then Inl (ErrRequestFailed method (rq_url req) (rq_query req) status body)
      else
        (case result of
           None \<Rightarrow> Inr None
         | Some dec \<Rightarrow> (case dec body of None \<Rightarrow> Inl ErrDecode | Some v \<Rightarrow> Inr (Some v))))"

text \<open>The URL of a request: \<open>u\<close> as the source builds it, before the query is appended.\<close>

definition request_url :: "Client \<Rightarrow> string \<Rightarrow> string" where
  "request_url c path =
     TrimRightSlash (if \<not> HasPrefixSlash path then baseURL c @ ''/'' else baseURL c) @ path"

text \<open>
  The request built by \<open>doRequest\<close>; \<open>body\<close> is the caller's body, already marshalled
  (\<open>None\<close> is nil), and the bearer header is set when the token is not empty.
\<close>

definition api_request ::
  "Client \<Rightarrow> string \<Rightarrow> string \<Rightarrow> (string \<times> qval) list \<Rightarrow> string option \<Rightarrow> request" where
  "api_request c method path query body =
     \<lparr>rq_method = method, rq_url = request_url c path, rq_query = query,
      rq_content_type = (if body \<noteq> None then Some ''application/json'' else None),
      rq_authorization = (if token c \<noteq> [] then Some (''Bearer '' @ token c) else None),
      rq_body = map_option JsonBody body\<rparr>"

text \<open>
  \<open>doRequest\<close>. The caller's body is \<open>None\<close> (nil), \<open>Some None\<close> (a value that
  \<open>json.Marshal\<close> rejects) or \<open>Some (Some b)\<close> (a value marshalled to \<open>b\<close>).
\<close>

definition doRequest ::
  "env \<Rightarrow> string \<Rightarrow> string \<Rightarrow> (string \<times> qval) list \<Rightarrow> string option option \<Rightarrow>
   (string \<Rightarrow> 'a option) option \<Rightarrow> Client \<Rightarrow> (error + 'a option) \<times> Client" where
  "doRequest e method path query body result c =
     (case ensureToken e c of
        (Inl err, c1) \<Rightarrow> (Inl err, c1)
      | (Inr _, c1) \<Rightarrow>
          if body = Some None then (Inl ErrMarshal, c1)
          else
            (let req = api_request c1 method path query (Option.bind body id) in
             if \<not> request_valid e method (rq_url req) then (Inl ErrNewRequest, c1)
             else
               (case send e req c1 of
                  (TransportError, c2) \<Rightarrow> (Inl ErrTransport, c2)
                | (Response status rbody, c2) \<Rightarrow>
                    if status = 401 then
                      (case Login e c2 of
                         (Inl err, c3) \<Rightarrow> (Inl err, c3)
                       | (Inr _, c3) \<Rightarrow>
                           (let req' = req\<lparr>rq_authorization := Some (''Bearer '' @ token c3)\<rparr> in
                            case send e req' c3 of
                              (TransportError, c4) \<Rightarrow> (Inl ErrTransport, c4)
                            | (Response status' rbody', c4) \<Rightarrow>
                                (finish method req result status' rbody', c4)))
                    else (finish method req result status rbody, c2))))"

subsection \<open>The endpoints\<close>

definition New_client :: "string \<Rightarrow> string \<Rightarrow> string \<Rightarrow> Client" where
  "New_client base user pass =
     \<lparr>baseURL = TrimRightSlash base, username = user, password = pass, token = [], calls = []\<rparr>"

text \<open>
  Each endpoint passes a non-nil \<open>result\<close>; were nothing decoded into it, it would keep
  Go's zero value, which is what the \<open>None\<close> branches return.
\<close>

definition GetWebsites :: "env \<Rightarrow> Client \<Rightarrow> (error + Website list) \<times> Client" where
  "GetWebsites e c =
     (case doRequest e ''GET'' ''/api/websites'' [(''pageSize'', QStr ''1000'')] None
             (Some (decode_websites e)) c of
        (Inl err, c') \<Rightarrow> (Inl err, c')
      | (Inr None, c') \<Rightarrow> (Inr [], c')
      | (Inr (Some ws), c') \<Rightarrow> (Inr ws, c'))"

definition thirty_days_ms :: int where
  "thirty_days_ms = 30 * 24 * 3600 * 1000"

definition zero_stat :: StatValue where
  "zero_stat = \<lparr>Value = 0, Prev = 0\<rparr>"

definition zero_stats :: WebsiteStats where
  "zero_stats = \<lparr>Pageviews = zero_stat, Visitors = zero_stat, Visits = zero_stat,
                  Bounces = zero_stat, Totaltime = zero_stat\<rparr>"

definition GetWebsiteStats :: "env \<Rightarrow> string \<Rightarrow> Client \<Rightarrow> (error + WebsiteStats) \<times> Client" where
  "GetWebsiteStats e wid c =
     (let now = unix_milli e (length (calls c));
          start = now - thirty_days_ms;
          q = [(''startAt'', QInt start), (''endAt'', QInt now)] in
      case doRequest e ''GET'' (''/api/websites/'' @ wid @ ''/stats'') q None
             (Some (decode_stats e)) c of
        (Inl err, c') \<Rightarrow> (Inl err, c')
      | (Inr None, c') \<Rightarrow> (Inr zero_stats, c')
      | (Inr (Some ws), c') \<Rightarrow> (Inr ws, c'))"

definition GetWebsiteActive :: "env \<Rightarrow> string \<Rightarrow> Client \<Rightarrow> (error + real) \<times> Client" where
  "GetWebsiteActive e wid c =
     (case doRequest e ''GET'' (''/api/websites/'' @ wid @ ''/active'') [] None
             (Some (decode_active e)) c of
        (Inl err, c') \<Rightarrow> (Inl err, c')
      | (Inr None, c') \<Rightarrow> (Inr 0, c')
      | (Inr (Some v), c') \<Rightarrow> (Inr v, c'))"

definition GetWebsiteMetrics ::
  "env \<Rightarrow> string \<Rightarrow> string \<Rightarrow> int \<Rightarrow> Client \<Rightarrow> (error + MetricEntry list) \<times> Client" where
  "GetWebsiteMetrics e wid typ limit c =
     (let now = unix_milli e (length (calls c));
          start = now - thirty_days_ms;
          q = [(''type'', QStr typ), (''startAt'', QInt start), (''endAt'', QInt now)]
              @ (if limit > 0 then [(''limit'', QInt limit)] else []) in
      case doRequest e ''GET'' (''/api/websites/'' @ wid @ ''/metrics'') q None
             (Some (decode_entries e)) c of
        (Inl err, c') \<Rightarrow> (Inl err, c')
      | (Inr None, c') \<Rightarrow> (Inr [], c')
      | (Inr (Some es), c') \<Rightarrow> (Inr es, c'))"

section \<open>The Prometheus collectors (internal/metrics/metrics.go)\<close>

text \<open>
  A gauge holds a float64; the values stored are 0, 1, a Unix time and numbers decoded
  from JSON, all finite, and none is computed with, so they are modelled as reals. A
  \<open>GaugeVec\<close> maps a tuple of label values to its gauge: \<open>Reset\<close> empties it and
  \<open>WithLabelValues(...).Set(v)\<close> stores \<open>v\<close> under the tuple.
\<close>

type_synonym GaugeVec = "string list \<rightharpoonup> real"

text \<open>
  \<open>WithLabelValues(lvs...).Set(v)\<close> on a \<open>GaugeVec\<close>: the client library panics when a
  label value is not valid UTF-8 (\<open>None\<close>); otherwise the value is stored under the
  tuple. The number of label values always matches in this program.
\<close>

definition set_gauge :: "GaugeVec \<Rightarrow> string list \<Rightarrow> real \<Rightarrow> GaugeVec option" where
  "set_gauge g lvs v = (if list_all ValidString lvs then Some (g(lvs \<mapsto> v)) else None)"

record Metrics =
  FetchSuccess :: real
  LastFetch :: real
  WebsitePageviews :: GaugeVec
  WebsiteVisitors :: GaugeVec
  WebsiteVisits :: GaugeVec
  WebsiteBounces :: GaugeVec
  WebsiteTotaltimeSeconds :: GaugeVec
  WebsiteActiveVisitors :: GaugeVec
  MetricValues :: GaugeVec

definition New_metrics :: Metrics where
  "New_metrics =
     \<lparr>FetchSuccess = 0, LastFetch = 0, WebsitePageviews = Map.empty,
      WebsiteVisitors = Map.empty, WebsiteVisits = Map.empty, WebsiteBounces = Map.empty,
      WebsiteTotaltimeSeconds = Map.empty, WebsiteActiveVisitors = Map.empty,
      MetricValues = Map.empty\<rparr>"

section \<open>The updater (internal/updater/updater.go)\<close>

datatype log_msg =
    LogStarting
  | LogListFailed error
  | LogCanceled
  | LogStatsError string error
  | LogActiveError string error
  | LogMetricsError string string error
  | LogFinished nat
  | LogStopping

text \<open>
  The updater. \<open>metrics\<close> is a pointer that may be nil (\<open>None\<close>); \<open>interval\<close> is a
  \<open>time.Duration\<close>, a number of nanoseconds; \<open>logger\<close> is the output of the logger,
  oldest line first (the duration printed by the last line of a cycle is left out).
\<close>

record Updater =
  client :: Client
  metrics :: "Metrics option"
  interval :: int
  concurrency :: int
  metricLimit :: int
  metricTypes :: "string list"
  logger :: "log_msg list"
  lastSuccess :: int
  lastFetchUnix :: int

definition New_updater ::
  "Client \<Rightarrow> Metrics option \<Rightarrow> int \<Rightarrow> int \<Rightarrow> int \<Rightarrow> string list \<Rightarrow> Updater" where
  "New_updater c m ival conc mlimit types =
     \<lparr>client = c, metrics = m, interval = ival, concurrency = conc, metricLimit = mlimit,
      metricTypes = types, logger = [], lastSuccess = 0, lastFetchUnix = 0\<rparr>"

definition LastSuccess :: "Updater \<Rightarrow> bool" where
  "LastSuccess u = (lastSuccess u = 1)"

definition LastFetchUnix :: "Updater \<Rightarrow> int" where
  "LastFetchUnix u = lastFetchUnix u"

definition logf :: "log_msg \<Rightarrow> Updater \<Rightarrow> Updater" where
  "logf msg u = u\<lparr>logger := logger u @ [msg]\<rparr>"

subsection \<open>One unit of work\<close>

definition site_labels :: "Website \<Rightarrow> string list" where
  "site_labels w = [ID w, Name w, Domain w]"

text \<open>The five writes after a successful stats fetch, in the order of the source.\<close>

definition record_stats :: "Website \<Rightarrow> WebsiteStats \<Rightarrow> Metrics \<Rightarrow> Metrics option" where
  "record_stats w s m =
     (case set_gauge (WebsitePageviews m) (site_labels w) (Value (Pageviews s)) of
        None \<Rightarrow> None
      | Some g1 \<Rightarrow>
     (case set_gauge (WebsiteVisitors m) (site_labels w) (Value (Visitors s)) of
        None \<Rightarrow> None
      | Some g2 \<Rightarrow>
     (case set_gauge (WebsiteVisits m) (site_labels w) (Value (Visits s)) of
        None \<Rightarrow> None
      | Some g3 \<Rightarrow>
     (case set_gauge (WebsiteBounces m) (site_labels w) (Value (Bounces s)) of
        None \<Rightarrow> None
      | Some g4 \<Rightarrow>
     (case set_gauge (WebsiteTotaltimeSeconds m) (site_labels w) (Value (Totaltime s)) of
        None \<Rightarrow> None
      | Some g5 \<Rightarrow>
          Some (m\<lparr>WebsitePageviews := g1, WebsiteVisitors := g2, WebsiteVisits := g3,
                  WebsiteBounces := g4, WebsiteTotaltimeSeconds := g5\<rparr>))))))"

definition record_active :: "Website \<Rightarrow> real \<Rightarrow> Metrics \<Rightarrow> Metrics option" where
  "record_active w v m =
     (case set_gauge (WebsiteActiveVisitors m) (site_labels w) v of
        None \<Rightarrow> None
      | Some g \<Rightarrow> Some (m\<lparr>WebsiteActiveVisitors := g\<rparr>))"

definition placeholder :: string where
  "placeholder = ''<empty>''"

text \<open>The label value under which an entry is published.\<close>

definition entry_label :: "MetricEntry \<Rightarrow> string" where
  "entry_label en = (let val = TrimSpace (X en) in if val = [] then placeholder else val)"

text \<open>The loop \<open>for _, e := range entries\<close>.\<close>

fun publish_entries ::
  "Website \<Rightarrow> string \<Rightarrow> MetricEntry list \<Rightarrow> Metrics \<Rightarrow> Metrics option" where
  "publish_entries w typ [] m = Some m"
| "publish_entries w typ (en # ens) m =
     (case set_gauge (MetricValues m) (site_labels w @ [typ, entry_label en]) (Y en) of
        None \<Rightarrow> None
      | Some g \<Rightarrow> publish_entries w typ ens (m\<lparr>MetricValues := g\<rparr>))"

text \<open>
  A write through \<open>u.metrics\<close> inside a unit is not guarded: with a nil \<open>metrics\<close> it is
  a nil-pointer panic in the goroutine. A panic in a unit, this one or the one of the
  client library, is not recovered and ends the process (\<open>None\<close>).
\<close>

definition with_metrics :: "(Metrics \<Rightarrow> Metrics option) \<Rightarrow> Updater \<Rightarrow> Updater option" where
  "with_metrics f u =
     (case metrics u of
        None \<Rightarrow> None
      | Some m \<Rightarrow> (case f m of None \<Rightarrow> None | Some m' \<Rightarrow> Some (u\<lparr>metrics := Some m'\<rparr>)))"

text \<open>The loop \<open>for _, typ := range u.metricTypes\<close>.\<close>

fun fetch_types :: "env \<Rightarrow> Website \<Rightarrow> string list \<Rightarrow> Updater \<Rightarrow> Updater option" where
  "fetch_types e w [] u = Some u"
| "fetch_types e w (typ # typs) u =
     (case GetWebsiteMetrics e (ID w) typ (metricLimit u) (client u) of
        (Inl err, c') \<Rightarrow>
          fetch_types e w typs (logf (LogMetricsError (ID w) typ err) (u\<lparr>client := c'\<rparr>))
      | (Inr entries, c') \<Rightarrow>
          if entries = [] then fetch_types e w typs (u\<lparr>client := c'\<rparr>)
          else
            (case with_metrics (publish_entries w typ entries) (u\<lparr>client := c'\<rparr>) of
               None \<Rightarrow> None
             | Some u' \<Rightarrow> fetch_types e w typs u'))"

definition fetch_stats :: "env \<Rightarrow> Website \<Rightarrow> Updater \<Rightarrow> Updater option" where
  "fetch_stats e w u =
     (case GetWebsiteStats e (ID w) (client u) of
        (Inl err, c') \<Rightarrow> Some (logf (LogStatsError (ID w) err) (u\<lparr>client := c'\<rparr>))
      | (Inr stats, c') \<Rightarrow> with_metrics (record_stats w stats) (u\<lparr>client := c'\<rparr>))"

definition fetch_active :: "env \<Rightarrow> Website \<Rightarrow> Updater \<Rightarrow> Updater option" where
  "fetch_active e w u =
     (case GetWebsiteActive e (ID w) (client u) of
        (Inl err, c') \<Rightarrow> Some (logf (LogActiveError (ID w) err) (u\<lparr>client := c'\<rparr>))
      | (Inr v, c') \<Rightarrow> with_metrics (record_active w v) (u\<lparr>client := c'\<rparr>))"

text \<open>The body of the goroutine started for one website.\<close>

definition worker :: "env \<Rightarrow> Website \<Rightarrow> Updater \<Rightarrow> Updater option" where
  "worker e w u =
     (case fetch_stats e w u of
        None \<Rightarrow> None
      | Some u1 \<Rightarrow>
          (case fetch_active e w u1 of
             None \<Rightarrow> None
           | Some u2 \<Rightarrow> fetch_types e w (metricTypes u2) u2))"

subsection \<open>One cycle\<close>

text \<open>
  The context of a cycle is given by its state (done or not) at the points of the
  dispatch loop: \<open>AtSelect i\<close> is the \<open>select\<close> before the \<open>i\<close>-th website is
  dispatched, \<open>AtDispatch i\<close> the send on the semaphore and the \<open>go\<close> statement that
  follow it. The loop reads the context at the selects only.
\<close>

datatype point = AtSelect nat | AtDispatch nat

text \<open>
  The dispatch loop and the join. The units of a cycle run concurrently in the source;
  the model runs each unit to its end when it is dispatched, in the order of the list,
  which is one of the schedules the semaphore admits when its capacity is positive.
  With capacity 0 the semaphore is an unbuffered channel that nobody receives from, so
  the first send blocks for ever.
\<close>

datatype fan_result = Joined Updater | Aborted Updater | UnitPanicked | SendBlocked

fun fanOut :: "env \<Rightarrow> (point \<Rightarrow> bool) \<Rightarrow> nat \<Rightarrow> Website list \<Rightarrow> Updater \<Rightarrow> fan_result" where
  "fanOut e ctx i [] u = Joined u"
| "fanOut e ctx i (w # ws) u =
     (if ctx (AtSelect i) then Aborted (logf LogCanceled u)
      else if concurrency u = 0 then SendBlocked
      else
        (case worker e w u of
           None \<Rightarrow> UnitPanicked
         | Some u' \<Rightarrow> fanOut e ctx (Suc i) ws u'))"

definition reset_dynamic :: "Metrics \<Rightarrow> Metrics" where
  "reset_dynamic m =
     m\<lparr>WebsitePageviews := Map.empty, WebsiteVisitors := Map.empty,
       WebsiteVisits := Map.empty, WebsiteBounces := Map.empty,
       WebsiteTotaltimeSeconds := Map.empty, WebsiteActiveVisitors := Map.empty,
       MetricValues := Map.empty\<rparr>"

text \<open>
  What a call can come to: it returns, it panics, or it never returns.
\<close>

datatype 'a outcome = Returned 'a | Panicked | Blocked

definition list_failed :: "error \<Rightarrow> Updater \<Rightarrow> Updater" where
  "list_failed err u =
     (logf (LogListFailed err) u)
       \<lparr>metrics := map_option (\<lambda>m. m\<lparr>FetchSuccess := 0\<rparr>) (metrics u), lastSuccess := 0\<rparr>"

definition commit :: "int \<Rightarrow> nat \<Rightarrow> Updater \<Rightarrow> Updater" where
  "commit now n u =
     logf (LogFinished n)
       (u\<lparr>metrics := map_option (\<lambda>m. m\<lparr>FetchSuccess := 1, LastFetch := of_int now\<rparr>) (metrics u),
          lastSuccess := 1, lastFetchUnix := now\<rparr>)"

text \<open>
  \<open>fetchAndUpdate\<close>. \<open>make(chan struct{}, n)\<close> panics for a negative \<open>n\<close>.
\<close>

definition fetchAndUpdate :: "env \<Rightarrow> (point \<Rightarrow> bool) \<Rightarrow> Updater \<Rightarrow> Updater outcome" where
  "fetchAndUpdate e ctx u =
     (let u0 = logf LogStarting u in
      case GetWebsites e (client u0) of
        (Inl err, c') \<Rightarrow> Returned (list_failed err (u0\<lparr>client := c'\<rparr>))
      | (Inr websites, c') \<Rightarrow>
          (let u1 = u0\<lparr>client := c', metrics := map_option reset_dynamic (metrics u0)\<rparr> in
           if concurrency u1 < 0 then Panicked
           else
             (case fanOut e ctx 0 websites u1 of
                Aborted u2 \<Rightarrow> Returned u2
              | UnitPanicked \<Rightarrow> Panicked
              | SendBlocked \<Rightarrow> Blocked
              | Joined u2 \<Rightarrow>
                  Returned (commit (unix_sec e (length (calls (client u2))))
                              (length websites) u2))))"

subsection \<open>The scheduler\<close>






section \<open>The health endpoint (internal/server/server.go)\<close>

record health_response =
  hr_status :: int
  hr_last_fetch :: int
  hr_success :: bool

text \<open>The handler of \<open>/healthz\<close>; the updater it is given may be nil.\<close>

definition healthz :: "Updater option \<Rightarrow> health_response" where
  "healthz uo =
     (let last = (case uo of None \<Rightarrow> 0 | Some u \<Rightarrow> LastFetchUnix u);
          success = (case uo of None \<Rightarrow> False | Some u \<Rightarrow> LastSuccess u) in
      \<lparr>hr_status = (if \<not> success then 503 else 200), hr_last_fetch = last,
       hr_success = success\<rparr>)"

section \<open>The statements of the specification, and test doubles\<close>

text \<open>
  The success condition of \<open>login()\<close> in the words of the specification: the status does
  not indicate failure, and the body either decodes as JSON that holds a token under one
  of the conventional field names, searched recursively through nested objects and
  arrays, or does not decode and is a non-empty raw string.
\<close>

fun spec_has_token :: "json \<Rightarrow> bool"
  and spec_has_token_vals :: "(string \<times> json) list \<Rightarrow> bool"
  and spec_has_token_items :: "json list \<Rightarrow> bool" where
  "spec_has_token (JObject t) =
     (list_ex (\<lambda>k. case map_of t k of Some (JString s) \<Rightarrow> s \<noteq> [] | _ \<Rightarrow> False) token_keys
      \<or> spec_has_token_vals t)"
| "spec_has_token (JArray t) = spec_has_token_items t"
| "spec_has_token (JString s) = False"
| "spec_has_token JNull = False"
| "spec_has_token (JBool b) = False"
| "spec_has_token (JNumber n) = False"
| "spec_has_token_vals [] = False"
| "spec_has_token_vals (kv # kvs) = (spec_has_token (snd kv) \<or> spec_has_token_vals kvs)"
| "spec_has_token_items [] = False"
| "spec_has_token_items (item # items) = (spec_has_token item \<or> spec_has_token_items items)"

definition spec_login_succeeds :: "env \<Rightarrow> http_result \<Rightarrow> bool" where
  "spec_login_succeeds e r =
     (case r of
        TransportError \<Rightarrow> False
      | Response status body \<Rightarrow>
          status < 400 \<and>
          (case unmarshal e body of Some j \<Rightarrow> spec_has_token j | None \<Rightarrow> body \<noteq> []))"

text \<open>
  A scripted environment for concrete runs: the \<open>n\<close>-th call of \<open>httpClient.Do\<close> gets
  the \<open>n\<close>-th result of the script (a transport error once the script is used up), every
  request can be built, and the decoders know a few bodies: \<open>json_abc\<close> is the JSON
  text of the string \<open>abc\<close>, \<open>json_tok\<close> that of an object with the one field
  \<open>token\<close> holding \<open>tok\<close>, \<open>json_err\<close> that of an object with the one field
  \<open>error\<close> holding \<open>bad password\<close>; the bodies of the other endpoints go by name.
\<close>

definition json_abc :: string where
  "json_abc = [CHR 0x22] @ ''abc'' @ [CHR 0x22]"

definition json_tok :: string where
  "json_tok = ''{'' @ [CHR 0x22] @ ''token'' @ [CHR 0x22] @ '':''
              @ [CHR 0x22] @ ''tok'' @ [CHR 0x22] @ ''}''"

definition json_err :: string where
  "json_err = ''{'' @ [CHR 0x22] @ ''error'' @ [CHR 0x22] @ '':''
              @ [CHR 0x22] @ ''bad password'' @ [CHR 0x22] @ ''}''"

definition test_unmarshal :: "string \<Rightarrow> json option" where
  "test_unmarshal b =
     (if b = json_abc then Some (JString ''abc'')
      else if b = json_tok then Some (JObject [(''token'', JString ''tok'')])
      else if b = json_err then Some (JObject [(''error'', JString ''bad password'')])
      else if b = ''null'' then Some JNull
      else None)"

definition test_stats :: WebsiteStats where
  "test_stats = zero_stats\<lparr>Pageviews := \<lparr>Value = 10, Prev = 5\<rparr>\<rparr>"

definition test_env :: "http_result list \<Rightarrow> env" where
  "test_env rs =
     \<lparr>http_do = (\<lambda>n r. if n < length rs then rs ! n else TransportError),
      request_valid = (\<lambda>m u. True),
      unmarshal = test_unmarshal,
      decode_websites =
        (\<lambda>b. if b = ''<websites>'' then Some [Website ''1'' ''A'' ''a.com''] else None),
      decode_stats = (\<lambda>b. if b = ''<stats>'' then Some test_stats else None),
      decode_active = (\<lambda>b. if b = ''<active>'' then Some 3 else None),
      decode_entries = (\<lambda>b. if b = ''<entries>'' then Some [\<lparr>X = [], Y = 7\<rparr>] else None),
      unix_milli = (\<lambda>n. 1700000000000 + int n),
      unix_sec = (\<lambda>n. 1700000000)\<rparr>"

definition test_client :: "string \<Rightarrow> Client" where
  "test_client tok = (New_client ''https://umami.example.com/'' ''you'' ''pass'')\<lparr>token := tok\<rparr>"

text \<open>
  A server that answers the first request with 401, accepts the login that follows and
  answers the retried request with 401 again.
\<close>

definition env401 :: env where
  "env401 = test_env [Response 401 ''expired'', Response 200 json_tok,
                      Response 401 ''again'']"

text \<open>
  What one unit of work leaves alone. A unit changes the client (its token and its
  calls), fills the per-website gauges and may log that a fetch failed; it touches
  neither the success indicators nor the configuration.
\<close>

definition is_unit_msg :: "log_msg \<Rightarrow> bool" where
  "is_unit_msg msg =
     (case msg of
        LogStatsError _ _ \<Rightarrow> True
      | LogActiveError _ _ \<Rightarrow> True
      | LogMetricsError _ _ _ \<Rightarrow> True
      | _ \<Rightarrow> False)"

definition unit_step :: "Updater \<Rightarrow> Updater \<Rightarrow> bool" where
  "unit_step u u' =
     (lastSuccess u' = lastSuccess u \<and> lastFetchUnix u' = lastFetchUnix u
      \<and> interval u' = interval u \<and> concurrency u' = concurrency u
      \<and> metricLimit u' = metricLimit u \<and> metricTypes u' = metricTypes u
      \<and> (metrics u' = None) = (metrics u = None)
      \<and> map_option FetchSuccess (metrics u') = map_option FetchSuccess (metrics u)
      \<and> map_option LastFetch (metrics u') = map_option LastFetch (metrics u)
      \<and> (\<exists>extra. logger u' = logger u @ extra \<and> list_all is_unit_msg extra))"

text \<open>
  Test doubles for the updater: a fresh updater, an updater after an earlier successful
  cycle, and a server that answers the listing and nothing else.
\<close>

definition test_updater :: Updater where
  "test_updater = New_updater (test_client ''tok'') (Some New_metrics) 0 5 100 [''url'']"

definition prior_metrics :: Metrics where
  "prior_metrics =
     New_metrics\<lparr>FetchSuccess := 1, LastFetch := 1699999940,
                 MetricValues := [[''1'', ''A'', ''a.com'', ''url'', ''/home''] \<mapsto> 4]\<rparr>"

definition prior_updater :: Updater where
  "prior_updater =
     test_updater\<lparr>metrics := Some prior_metrics, lastSuccess := 1, lastFetchUnix := 1699999940\<rparr>"

definition env_list_only :: env where
  "env_list_only = test_env [Response 200 ''<websites>'']"

text \<open>
  The state of the series family that C4 is about: every label tuple in it has five
  values and the last one, the value label, is not empty.
\<close>

definition series_ok :: "Metrics \<Rightarrow> bool" where
  "series_ok m = (\<forall>ls \<in> dom (MetricValues m). length ls = 5 \<and> ls ! 4 \<noteq> [])"

definition sink_ok :: "Updater \<Rightarrow> bool" where
  "sink_ok u = (case metrics u of None \<Rightarrow> True | Some m \<Rightarrow> series_ok m)"

text \<open>
  The scenario of the specification: one website, a summary with 10 page views, 3
  active visitors, and one series entry of type url with an empty label and value 7.
\<close>

definition env_scenario :: env where
  "env_scenario = test_env [Response 200 ''<websites>'', Response 200 ''<stats>'',
                            Response 200 ''<active>'', Response 200 ''<entries>'']"

text \<open>
  The condition of C10 in its own words: the context is done at some point of the
  dispatch loop that is not later than the dispatch of the last listed website.
\<close>

definition cancelled_before_all_dispatched :: "(point \<Rightarrow> bool) \<Rightarrow> Website list \<Rightarrow> bool" where
  "cancelled_before_all_dispatched ctx ws =
     (\<exists>i<length ws. ctx (AtSelect i) \<or> ctx (AtDispatch i))"

text \<open>
  A context that is cancelled right after the first select: not done there, done at
  every later point.
\<close>

definition ctx_late :: "point \<Rightarrow> bool" where
  "ctx_late p = (p \<noteq> AtSelect 0)"


section \<open>Properties\<close>

lemma find_key_nonempty: "find_key t ks = Some s \<Longrightarrow> s \<noteq> []"
  by (induction ks) (auto split: option.splits json.splits if_splits)

lemma findToken_nonempty:
  "findToken j = Some s \<Longrightarrow> s \<noteq> []"
  "findToken_vals kvs = Some s \<Longrightarrow> s \<noteq> []"
  "findToken_items js = Some s \<Longrightarrow> s \<noteq> []"
  by (induction j and kvs and js rule: findToken_findToken_vals_findToken_items.induct)
     (auto simp: Let_def find_key_nonempty split: option.splits if_splits)

subsection \<open>The health endpoint\<close>

text \<open>
  C9. The handler of \<open>/healthz\<close> answers 503 exactly when the success flag of the last
  cycle is false and 200 exactly when it is true; the body carries the stored
  last-fetch time and the flag. A fresh updater, before any cycle has completed, and a
  nil updater give 503 with time 0 and flag false.
\<close>

theorem healthz_reports:
  "(hr_status (healthz (Some u)) = 503) = (\<not> LastSuccess u)
   \<and> (hr_status (healthz (Some u)) = 200) = LastSuccess u
   \<and> hr_last_fetch (healthz (Some u)) = LastFetchUnix u
   \<and> hr_success (healthz (Some u)) = LastSuccess u
   \<and> healthz (Some (New_updater c m ival conc mlimit types))
       = \<lparr>hr_status = 503, hr_last_fetch = 0, hr_success = False\<rparr>
   \<and> healthz None = \<lparr>hr_status = 503, hr_last_fetch = 0, hr_success = False\<rparr>"
  by (simp add: healthz_def LastSuccess_def LastFetchUnix_def New_updater_def Let_def)

subsection \<open>Login\<close>

lemma test_env_simps:
  "http_do (test_env rs) n r = (if n < length rs then rs ! n else TransportError)"
  "request_valid (test_env rs) m u = True"
  "unmarshal (test_env rs) = test_unmarshal"
  by (simp_all add: test_env_def)

lemma test_unmarshal_simps:
  "test_unmarshal json_abc = Some (JString ''abc'')"
  "test_unmarshal json_tok = Some (JObject [(''token'', JString ''tok'')])"
  "test_unmarshal json_err = Some (JObject [(''error'', JString ''bad password'')])"
  "test_unmarshal ''null'' = Some JNull"
  "test_unmarshal '' '' = None"
  by (simp_all add: test_unmarshal_def json_abc_def json_tok_def json_err_def)

text \<open>
  C5. The statement of the specification does not hold of the code. The server answers
  the login with status 200 and the JSON object whose only field is \<open>error\<close>, holding
  \<open>bad password\<close>. The body decodes as JSON and holds no token under any of the
  conventional field names, at any depth, so by the specification \<open>Login\<close> fails and
  leaves the cached credential alone. The code succeeds and replaces the cached
  credential \<open>old\<close> by \<open>bad password\<close>: the loop of \<open>findToken\<close> over the values of a
  map hands every value to \<open>findToken\<close>, whose string case accepts any string that is
  not blank, whatever the key it stands under.
\<close>

theorem Login_caches_any_string:
  "\<not> spec_login_succeeds (test_env [Response 200 json_err])
        (http_do (test_env [Response 200 json_err]) 0 (login_request (test_client ''old'')))
   \<and> \<not> spec_has_token (JObject [(''error'', JString ''bad password'')])
   \<and> findToken (JObject [(''error'', JString ''bad password'')]) = Some ''bad password''
   \<and> fst (Login (test_env [Response 200 json_err]) (test_client ''old'')) = Inr ()
   \<and> token (snd (Login (test_env [Response 200 json_err]) (test_client ''old'')))
       = ''bad password''"
proof -
  have t: "TrimSpace ''bad password'' = ''bad password''"
    by (simp add: TrimSpace_def isAsciiSpace_def isSpace2_def isSpace3_def)
  have f: "findToken (JObject [(''error'', JString ''bad password'')]) = Some ''bad password''"
    by (simp add: token_keys_def t)
  have s: "\<not> spec_has_token (JObject [(''error'', JString ''bad password'')])"
    by (simp add: token_keys_def)
  show ?thesis
    using f s
    by (simp add: spec_login_succeeds_def test_env_simps test_unmarshal_simps Login_def
          send_def test_client_def New_client_def login_request_def Let_def)
qed

subsection \<open>doRequest\<close>

lemma Login_cases:
  "Login e c = (Inl ErrNewRequest, c)
   \<or> (\<exists>err. Login e c = (Inl err, c\<lparr>calls := calls c @ [login_request c]\<rparr>))
   \<or> (\<exists>tok. tok \<noteq> [] \<and>
              Login e c = (Inr (), c\<lparr>calls := calls c @ [login_request c], token := tok\<rparr>))"
  by (auto simp: Login_def send_def Let_def dest: findToken_nonempty(1)
           split: http_result.splits option.splits)

lemma login_request_calls [simp]: "login_request (c\<lparr>calls := cs\<rparr>) = login_request c"
  by (simp add: login_request_def)

text \<open>
  C1. Take a call of \<open>doRequest\<close> whose request is built and sent (after \<open>ensureToken\<close>
  has left the client in state \<open>c1\<close>) and answered with 401. Then \<open>Login\<close> is called
  once, on the state after that request. If it fails, its error is the result, the
  cached token is the old one, and nothing is sent besides the request and, at most,
  the one login request. If it succeeds, the token it cached is the client's token, the
  requests sent are exactly the first request, the login request and one retry of the
  first request carrying the new token as its bearer; the result is decided by the
  answer to the retry alone, and when that answer is 401 again the result is the
  request error with status 401: no further login, no further retry.
\<close>

theorem doRequest_unauthorized_once:
  assumes ens: "ensureToken e c = (Inr (), c1)"
    and body: "body \<noteq> Some None"
    and valid: "request_valid e method (request_url c1 path)"
    and first: "http_do e (length (calls c1))
                  (api_request c1 method path query (Option.bind body id)) = Response 401 rb"
  shows "\<exists>r c'. doRequest e method path query body result c = (r, c') \<and>
           (let req = api_request c1 method path query (Option.bind body id);
                relogin = Login e (c1\<lparr>calls := calls c1 @ [req]\<rparr>);
                retry = req\<lparr>rq_authorization := Some (''Bearer '' @ token c')\<rparr>
            in ((\<exists>err. fst relogin = Inl err \<and> r = Inl err) \<and> token c' = token c1
                \<and> (calls c' = calls c1 @ [req] \<or> calls c' = calls c1 @ [req, login_request c1]))
             \<or> (fst relogin = Inr ()
                 \<and> token c' = token (snd relogin)
                 \<and> calls c' = calls c1 @ [req, login_request c1, retry]
                 \<and> r = (case http_do e (length (calls c1) + 2) retry of
                          TransportError \<Rightarrow> Inl ErrTransport
                        | Response status' rbody' \<Rightarrow> finish method req result status' rbody')
                 \<and> (\<forall>rb'. http_do e (length (calls c1) + 2) retry = Response 401 rb' \<longrightarrow>
                        r = Inl (ErrRequestFailed method (rq_url req) (rq_query req) 401 rb'))))"
proof -
  define req where "req = api_request c1 method path query (Option.bind body id)"
  define c2 where "c2 = c1\<lparr>calls := calls c1 @ [req]\<rparr>"
  have url: "rq_url req = request_url c1 path"
    by (simp add: req_def api_request_def)
  have snd1: "send e req c1 = (Response 401 rb, c2)"
    using first by (simp add: send_def req_def c2_def)
  have step: "doRequest e method path query body result c =
      (case Login e c2 of
         (Inl err, c3) \<Rightarrow> (Inl err, c3)
       | (Inr _, c3) \<Rightarrow>
           (let req' = req\<lparr>rq_authorization := Some (''Bearer '' @ token c3)\<rparr> in
            case send e req' c3 of
              (TransportError, c4) \<Rightarrow> (Inl ErrTransport, c4)
            | (Response status' rbody', c4) \<Rightarrow> (finish method req result status' rbody', c4)))"
    unfolding req_def
    using ens body valid snd1 [unfolded req_def] url [unfolded req_def]
    by (simp add: doRequest_def Let_def)
  consider (a) "Login e c2 = (Inl ErrNewRequest, c2)"
    | (b) err where "Login e c2 = (Inl err, c2\<lparr>calls := calls c2 @ [login_request c2]\<rparr>)"
    | (c) tok where "tok \<noteq> []"
        "Login e c2 = (Inr (), c2\<lparr>calls := calls c2 @ [login_request c2], token := tok\<rparr>)"
    using Login_cases [of e c2] by blast
  then show ?thesis
  proof cases
    case a
    then show ?thesis
      using step by (simp add: Let_def req_def [symmetric] c2_def)
  next
    case b
    then show ?thesis
      using step by (simp add: Let_def req_def [symmetric] c2_def)
  next
    case c
    define retry where "retry = req\<lparr>rq_authorization := Some (''Bearer '' @ tok)\<rparr>"
    define c4 where
      "c4 = c1\<lparr>calls := calls c1 @ [req, login_request c1, retry], token := tok\<rparr>"
    define rr where
      "rr = (case http_do e (length (calls c1) + 2) retry of
               TransportError \<Rightarrow> Inl ErrTransport
             | Response status' rbody' \<Rightarrow> finish method req result status' rbody')"
    have res: "doRequest e method path query body result c = (rr, c4)"
      unfolding step c(2)
      by (simp add: Let_def send_def c2_def c4_def rr_def retry_def split: http_result.splits)
    have tok4: "token c4 = tok" and calls4: "calls c4 = calls c1 @ [req, login_request c1, retry]"
      by (simp_all add: c4_def)
    have login2: "fst (Login e (c1\<lparr>calls := calls c1 @ [req]\<rparr>)) = Inr ()"
      "token (snd (Login e (c1\<lparr>calls := calls c1 @ [req]\<rparr>))) = tok"
      using c(2) by (simp_all add: c2_def)
    have again: "\<forall>rb'. http_do e (length (calls c1) + 2) retry = Response 401 rb' \<longrightarrow>
                   rr = Inl (ErrRequestFailed method (rq_url req) (rq_query req) 401 rb')"
      by (simp add: rr_def finish_def)
    have "fst (Login e (c1\<lparr>calls := calls c1 @ [req]\<rparr>)) = Inr ()
          \<and> token c4 = token (snd (Login e (c1\<lparr>calls := calls c1 @ [req]\<rparr>)))
          \<and> calls c4 = calls c1 @ [req, login_request c1, req\<lparr>rq_authorization := Some (''Bearer '' @ token c4)\<rparr>]
          \<and> rr = (case http_do e (length (calls c1) + 2)
                          (req\<lparr>rq_authorization := Some (''Bearer '' @ token c4)\<rparr>) of
                     TransportError \<Rightarrow> Inl ErrTransport
                   | Response status' rbody' \<Rightarrow> finish method req result status' rbody')
          \<and> (\<forall>rb'. http_do e (length (calls c1) + 2)
                          (req\<lparr>rq_authorization := Some (''Bearer '' @ token c4)\<rparr>) = Response 401 rb' \<longrightarrow>
                   rr = Inl (ErrRequestFailed method (rq_url req) (rq_query req) 401 rb'))"
      unfolding tok4 retry_def [symmetric]
      using calls4 login2 again rr_def by blast
    then show ?thesis
      unfolding Let_def req_def [symmetric]
      using res by blast
  qed
qed

theorem doRequest_unauthorized_once_witness:
  "fst (doRequest env401 ''GET'' ''/api/websites'' [] None (Some (decode_websites env401))
         (test_client ''old''))
     = Inl (ErrRequestFailed ''GET'' ''https://umami.example.com/api/websites'' [] 401 ''again'')
   \<and> token (snd (doRequest env401 ''GET'' ''/api/websites'' [] None
                   (Some (decode_websites env401)) (test_client ''old''))) = ''tok''
   \<and> length (calls (snd (doRequest env401 ''GET'' ''/api/websites'' [] None
                   (Some (decode_websites env401)) (test_client ''old'')))) = 3"
proof -
  let ?c = "test_client ''old''"
  let ?req = "api_request ?c ''GET'' ''/api/websites'' [] (Option.bind None id)"
  have tc: "token ?c = ''old''" "calls ?c = []" "baseURL ?c = ''https://umami.example.com''"
    by (simp_all add: test_client_def New_client_def TrimRightSlash_def)
  have h1: "ensureToken env401 ?c = (Inr (), ?c)"
    by (simp add: ensureToken_def tc)
  have h2: "(None :: string option option) \<noteq> Some None"
    by simp
  have h3: "request_valid env401 ''GET'' (request_url ?c ''/api/websites'')"
    by (simp add: env401_def test_env_simps)
  have h4: "http_do env401 (length (calls ?c)) ?req = Response 401 ''expired''"
    by (simp add: env401_def test_env_simps tc)
  have url: "rq_url ?req = ''https://umami.example.com/api/websites''" "rq_query ?req = []"
    by (simp_all add: api_request_def request_url_def tc HasPrefixSlash_def TrimRightSlash_def)
  have relogin: "Login env401 (?c\<lparr>calls := calls ?c @ [?req]\<rparr>)
        = (Inr (), ?c\<lparr>calls := [?req, login_request ?c], token := ''tok''\<rparr>)"
    by (simp add: Login_def send_def env401_def test_env_simps tc test_unmarshal_simps
          token_keys_def Let_def)
  have third: "http_do env401 (length (calls ?c) + 2) q = Response 401 ''again''" for q
    by (simp add: env401_def test_env_simps tc)
  from doRequest_unauthorized_once [OF h1 h2 h3 h4, of "Some (decode_websites env401)"]
  obtain r c' where
    run: "doRequest env401 ''GET'' ''/api/websites'' [] None (Some (decode_websites env401)) ?c = (r, c')"
    and out: "((\<exists>err. fst (Login env401 (?c\<lparr>calls := calls ?c @ [?req]\<rparr>)) = Inl err \<and> r = Inl err)
                \<and> token c' = token ?c
                \<and> (calls c' = calls ?c @ [?req] \<or> calls c' = calls ?c @ [?req, login_request ?c]))
             \<or> (fst (Login env401 (?c\<lparr>calls := calls ?c @ [?req]\<rparr>)) = Inr ()
                 \<and> token c' = token (snd (Login env401 (?c\<lparr>calls := calls ?c @ [?req]\<rparr>)))
                 \<and> calls c' = calls ?c @ [?req, login_request ?c,
                                 ?req\<lparr>rq_authorization := Some (''Bearer '' @ token c')\<rparr>]
                 \<and> r = (case http_do env401 (length (calls ?c) + 2)
                               (?req\<lparr>rq_authorization := Some (''Bearer '' @ token c')\<rparr>) of
                          TransportError \<Rightarrow> Inl ErrTransport
                        | Response status' rbody' \<Rightarrow>
                            finish ''GET'' ?req (Some (decode_websites env401)) status' rbody')
                 \<and> (\<forall>rb'. http_do env401 (length (calls ?c) + 2)
                             (?req\<lparr>rq_authorization := Some (''Bearer '' @ token c')\<rparr>)
                           = Response 401 rb' \<longrightarrow>
                        r = Inl (ErrRequestFailed ''GET'' (rq_url ?req) (rq_query ?req) 401 rb')))"
    unfolding Let_def by blast
  from out have r: "r = Inl (ErrRequestFailed ''GET'' (rq_url ?req) (rq_query ?req) 401 ''again'')"
    and t: "token c' = ''tok''" and n: "length (calls c') = 3"
    unfolding relogin third by (auto simp: tc)
  show ?thesis
    unfolding run using r t n url by simp
qed

subsection \<open>The refresh cycle\<close>

lemma unit_step_refl: "unit_step u u"
  by (simp add: unit_step_def)

lemma unit_step_trans: "unit_step u v \<Longrightarrow> unit_step v w \<Longrightarrow> unit_step u w"
  by (auto simp: unit_step_def)

lemma unit_step_client: "unit_step u (u\<lparr>client := c\<rparr>)"
  by (simp add: unit_step_def)

lemma unit_step_logf: "is_unit_msg msg \<Longrightarrow> unit_step u (logf msg (u\<lparr>client := c\<rparr>))"
  by (simp add: unit_step_def logf_def)

lemma unit_step_with_metrics:
  assumes "with_metrics f (u\<lparr>client := c\<rparr>) = Some u'"
    and "\<And>m m'. f m = Some m' \<Longrightarrow> FetchSuccess m' = FetchSuccess m \<and> LastFetch m' = LastFetch m"
  shows "unit_step u u'"
proof -
  from assms(1) obtain m m' where m: "metrics u = Some m" "f m = Some m'"
    and u': "u' = u\<lparr>client := c, metrics := Some m'\<rparr>"
    by (auto simp: with_metrics_def split: option.splits)
  from assms(2) [OF m(2)] show ?thesis
    by (simp add: unit_step_def u' m(1))
qed

lemma record_stats_gauges:
  "record_stats w s m = Some m' \<Longrightarrow> FetchSuccess m' = FetchSuccess m \<and> LastFetch m' = LastFetch m"
  by (auto simp: record_stats_def split: option.splits)

lemma record_active_gauges:
  "record_active w v m = Some m' \<Longrightarrow> FetchSuccess m' = FetchSuccess m \<and> LastFetch m' = LastFetch m"
  by (auto simp: record_active_def split: option.splits)

lemma publish_entries_gauges:
  "publish_entries w ty ens m = Some m' \<Longrightarrow>
   FetchSuccess m' = FetchSuccess m \<and> LastFetch m' = LastFetch m"
proof (induction ens arbitrary: m)
  case Nil
  then show ?case by simp
next
  case (Cons en ens)
  then obtain g where "publish_entries w ty ens (m\<lparr>MetricValues := g\<rparr>) = Some m'"
    by (auto split: option.splits)
  from Cons.IH [OF this] show ?case by simp
qed

lemma fetch_stats_step: "fetch_stats e w u = Some u' \<Longrightarrow> unit_step u u'"
proof -
  assume f: "fetch_stats e w u = Some u'"
  obtain r c' where g: "GetWebsiteStats e (ID w) (client u) = (r, c')"
    by (cases "GetWebsiteStats e (ID w) (client u)")
  show ?thesis
  proof (cases r)
    case (Inl err)
    then show ?thesis
      using f g by (auto simp: fetch_stats_def is_unit_msg_def unit_step_logf)
  next
    case (Inr stats)
    then have "with_metrics (record_stats w stats) (u\<lparr>client := c'\<rparr>) = Some u'"
      using f g by (simp add: fetch_stats_def)
    then show ?thesis
      by (rule unit_step_with_metrics) (rule record_stats_gauges)
  qed
qed

lemma fetch_active_step: "fetch_active e w u = Some u' \<Longrightarrow> unit_step u u'"
proof -
  assume f: "fetch_active e w u = Some u'"
  obtain r c' where g: "GetWebsiteActive e (ID w) (client u) = (r, c')"
    by (cases "GetWebsiteActive e (ID w) (client u)")
  show ?thesis
  proof (cases r)
    case (Inl err)
    then show ?thesis
      using f g by (auto simp: fetch_active_def is_unit_msg_def unit_step_logf)
  next
    case (Inr v)
    then have "with_metrics (record_active w v) (u\<lparr>client := c'\<rparr>) = Some u'"
      using f g by (simp add: fetch_active_def)
    then show ?thesis
      by (rule unit_step_with_metrics) (rule record_active_gauges)
  qed
qed

lemma fetch_types_step: "fetch_types e w typs u = Some u' \<Longrightarrow> unit_step u u'"
proof (induction typs arbitrary: u)
  case Nil
  then show ?case by (simp add: unit_step_refl)
next
  case (Cons ty tys)
  obtain r c' where g: "GetWebsiteMetrics e (ID w) ty (metricLimit u) (client u) = (r, c')"
    by (cases "GetWebsiteMetrics e (ID w) ty (metricLimit u) (client u)")
  show ?case
  proof (cases r)
    case (Inl err)
    then have "fetch_types e w tys (logf (LogMetricsError (ID w) ty err) (u\<lparr>client := c'\<rparr>)) = Some u'"
      using Cons.prems g by simp
    then have "unit_step (logf (LogMetricsError (ID w) ty err) (u\<lparr>client := c'\<rparr>)) u'"
      by (rule Cons.IH)
    moreover have "unit_step u (logf (LogMetricsError (ID w) ty err) (u\<lparr>client := c'\<rparr>))"
      by (rule unit_step_logf) (simp add: is_unit_msg_def)
    ultimately show ?thesis by (blast intro: unit_step_trans)
  next
    case (Inr entries)
    show ?thesis
    proof (cases "entries = []")
      case True
      then have "fetch_types e w tys (u\<lparr>client := c'\<rparr>) = Some u'"
        using Cons.prems g Inr by simp
      then have "unit_step (u\<lparr>client := c'\<rparr>) u'" by (rule Cons.IH)
      then show ?thesis using unit_step_client unit_step_trans by blast
    next
      case False
      then obtain u1 where w1: "with_metrics (publish_entries w ty entries) (u\<lparr>client := c'\<rparr>) = Some u1"
        and rest: "fetch_types e w tys u1 = Some u'"
        using Cons.prems g Inr by (auto split: option.splits)
      from w1 have "unit_step u u1"
        by (rule unit_step_with_metrics) (rule publish_entries_gauges)
      moreover from rest have "unit_step u1 u'" by (rule Cons.IH)
      ultimately show ?thesis by (blast intro: unit_step_trans)
    qed
  qed
qed

lemma worker_step: "worker e w u = Some u' \<Longrightarrow> unit_step u u'"
  by (auto simp: worker_def split: option.splits
           dest!: fetch_stats_step fetch_active_step fetch_types_step
           intro: unit_step_trans)

lemma fanOut_Joined_step: "fanOut e ctx i ws u = Joined u' \<Longrightarrow> unit_step u u'"
proof (induction ws arbitrary: i u)
  case Nil
  then show ?case by (simp add: unit_step_refl)
next
  case (Cons w ws)
  then show ?case
    by (auto split: if_splits option.splits dest!: worker_step intro: unit_step_trans)
qed

lemma fanOut_Aborted_step:
  "fanOut e ctx i ws u = Aborted u' \<Longrightarrow> \<exists>v. unit_step u v \<and> u' = logf LogCanceled v"
proof (induction ws arbitrary: i u)
  case Nil
  then show ?case by simp
next
  case (Cons w ws)
  show ?case
  proof (cases "ctx (AtSelect i)")
    case True
    then show ?thesis using Cons.prems unit_step_refl by auto
  next
    case False
    then obtain u1 where 1: "worker e w u = Some u1" and 2: "fanOut e ctx (Suc i) ws u1 = Aborted u'"
      using Cons.prems by (auto split: if_splits option.splits)
    from Cons.IH [OF 2] obtain v where "unit_step u1 v" "u' = logf LogCanceled v" by blast
    then show ?thesis using worker_step [OF 1] unit_step_trans by blast
  qed
qed


lemma fanOut_cancelled:
  "k < length ws \<Longrightarrow> ctx (AtSelect (i + k)) \<Longrightarrow> fanOut e ctx i ws u \<noteq> Joined u'"
proof (induction ws arbitrary: i k u)
  case Nil
  then show ?case by simp
next
  case (Cons w ws)
  show ?case
  proof (cases k)
    case 0
    then show ?thesis using Cons.prems by simp
  next
    case (Suc k')
    then have "k' < length ws" "ctx (AtSelect (Suc i + k'))" using Cons.prems by simp_all
    then have "fanOut e ctx (Suc i) ws v \<noteq> Joined u'" for v
      using Cons.IH by blast
    then show ?thesis by (auto split: option.splits)
  qed
qed

lemma fanOut_aborts_or_panics:
  "0 < concurrency u \<Longrightarrow> k < length ws \<Longrightarrow> ctx (AtSelect (i + k))
     \<Longrightarrow> (\<exists>u'. fanOut e ctx i ws u = Aborted u') \<or> fanOut e ctx i ws u = UnitPanicked"
proof (induction ws arbitrary: i k u)
  case Nil
  then show ?case by simp
next
  case (Cons w ws)
  show ?case
  proof (cases "ctx (AtSelect i)")
    case True
    then show ?thesis by simp
  next
    case False
    then obtain k' where k: "k = Suc k'"
      using Cons.prems(3) by (cases k) auto
    show ?thesis
    proof (cases "worker e w u")
      case None
      then show ?thesis using False Cons.prems(1) by simp
    next
      case (Some u1)
      have c: "0 < concurrency u1"
        using worker_step [OF Some] Cons.prems(1) by (simp add: unit_step_def)
      have "k' < length ws" "ctx (AtSelect (Suc i + k'))" using Cons.prems k by simp_all
      from Cons.IH [OF c this] show ?thesis
        using False Some Cons.prems(1) by simp
    qed
  qed
qed

lemma logf_fields [simp]:
  "client (logf msg u) = client u"
  "metrics (logf msg u) = metrics u"
  "interval (logf msg u) = interval u"
  "concurrency (logf msg u) = concurrency u"
  "metricLimit (logf msg u) = metricLimit u"
  "metricTypes (logf msg u) = metricTypes u"
  "lastSuccess (logf msg u) = lastSuccess u"
  "lastFetchUnix (logf msg u) = lastFetchUnix u"
  "logger (logf msg u) = logger u @ [msg]"
  by (simp_all add: logf_def)

text \<open>
  C2. When the listing call fails, the cycle returns at once: the success flag is
  false, the last-fetch time is what it was, the log holds the start line and the
  failure line only, and the sink is what it was but for the success gauge, now 0: no
  per-website gauge or series is reset or written, and the last-fetch gauge keeps its
  value.
\<close>

theorem fetchAndUpdate_listing_fails:
  assumes list: "GetWebsites e (client u) = (Inl err, c')"
  shows "\<exists>u'. fetchAndUpdate e ctx u = Returned u'
           \<and> \<not> LastSuccess u'
           \<and> LastFetchUnix u' = LastFetchUnix u
           \<and> logger u' = logger u @ [LogStarting, LogListFailed err]
           \<and> client u' = c'
           \<and> (case metrics u of
                 None \<Rightarrow> metrics u' = None
               | Some m \<Rightarrow> metrics u' = Some (m\<lparr>FetchSuccess := 0\<rparr>))"
  using list
  by (simp add: fetchAndUpdate_def list_failed_def logf_def LastSuccess_def LastFetchUnix_def
        Let_def split: option.splits)

lemma test_env_transport [simp]: "http_do (test_env []) n r = TransportError"
  by (simp add: test_env_def)

lemma prior_fields:
  "client prior_updater = test_client ''tok''"
  "metrics prior_updater = Some prior_metrics"
  "lastSuccess prior_updater = 1"
  "lastFetchUnix prior_updater = 1699999940"
  "logger prior_updater = []"
  by (simp_all add: prior_updater_def test_updater_def New_updater_def)

lemma test_client_fields:
  "token (test_client t) = t"
  "calls (test_client t) = []"
  "baseURL (test_client t) = ''https://umami.example.com''"
  by (simp_all add: test_client_def New_client_def TrimRightSlash_def)

theorem fetchAndUpdate_listing_fails_witness:
  "\<exists>u'. fetchAndUpdate (test_env []) (\<lambda>p. False) prior_updater = Returned u'
        \<and> \<not> LastSuccess u'
        \<and> LastFetchUnix u' = 1699999940
        \<and> logger u' = [LogStarting, LogListFailed ErrTransport]
        \<and> metrics u' = Some (prior_metrics\<lparr>FetchSuccess := 0\<rparr>)"
proof -
  have "GetWebsites (test_env []) (client prior_updater)
          = (Inl ErrTransport,
             (test_client ''tok'')\<lparr>calls :=
                [api_request (test_client ''tok'') ''GET'' ''/api/websites''
                   [(''pageSize'', QStr ''1000'')] None]\<rparr>)"
    by (simp add: GetWebsites_def doRequest_def ensureToken_def send_def prior_fields
          test_client_fields test_env_simps Let_def)
  from fetchAndUpdate_listing_fails [OF this, of "\<lambda>p. False"]
  show ?thesis
    by (auto simp: prior_fields LastFetchUnix_def)
qed

lemma test_updater_fields:
  "client test_updater = test_client ''tok''"
  "metrics test_updater = Some New_metrics"
  "concurrency test_updater = 5"
  "metricTypes test_updater = [''url'']"
  "metricLimit test_updater = 100"
  "interval test_updater = 0"
  "logger test_updater = []"
  "lastSuccess test_updater = 0"
  "lastFetchUnix test_updater = 0"
  by (simp_all add: test_updater_def New_updater_def)

lemma prior_fields2:
  "concurrency prior_updater = 5"
  "metricTypes prior_updater = [''url'']"
  "metricLimit prior_updater = 100"
  "interval prior_updater = 0"
  by (simp_all add: prior_updater_def test_updater_def New_updater_def)

lemma env_list_only_websites:
  "GetWebsites env_list_only (test_client ''tok'')
     = (Inr [Website ''1'' ''A'' ''a.com''],
        (test_client ''tok'')\<lparr>calls :=
           [api_request (test_client ''tok'') ''GET'' ''/api/websites''
              [(''pageSize'', QStr ''1000'')] None]\<rparr>)"
  by (simp add: GetWebsites_def doRequest_def ensureToken_def send_def finish_def
        test_client_fields env_list_only_def test_env_def Let_def)

lemma fetchAndUpdate_listed:
  "GetWebsites e (client u) = (Inr ws, c') \<Longrightarrow> 0 \<le> concurrency u \<Longrightarrow>
   fetchAndUpdate e ctx u =
     (case fanOut e ctx 0 ws
             ((logf LogStarting u)\<lparr>client := c',
                 metrics := map_option reset_dynamic (metrics u)\<rparr>) of
        Joined u2 \<Rightarrow>
          Returned (commit (unix_sec e (length (calls (client u2)))) (length ws) u2)
      | Aborted u2 \<Rightarrow> Returned u2
      | UnitPanicked \<Rightarrow> Panicked
      | SendBlocked \<Rightarrow> Blocked)"
  by (simp add: fetchAndUpdate_def Let_def)


lemma list_only_doRequest:
  "token c \<noteq> [] \<Longrightarrow> calls c \<noteq> [] \<Longrightarrow>
   doRequest env_list_only m path q None result c
     = (Inl ErrTransport, c\<lparr>calls := calls c @ [api_request c m path q None]\<rparr>)"
proof -
  assume t: "token c \<noteq> []" and n: "calls c \<noteq> []"
  have "\<not> length (calls c) < Suc 0"
    using n by (cases "calls c") simp_all
  then have "http_do env_list_only (length (calls c)) r = TransportError" for r
    by (simp add: env_list_only_def test_env_def)
  moreover have "request_valid env_list_only m u" for u
    by (simp add: env_list_only_def test_env_def)
  ultimately show ?thesis
    using t by (simp add: doRequest_def ensureToken_def send_def Let_def)
qed

text \<open>
  A cycle against the server that answers the listing and nothing else, under a context
  that the first select does not find done: the one unit runs, each of its three fetches
  fails, and the cycle commits.
\<close>

lemma list_only_cycle:
  assumes first: "\<not> ctx (AtSelect 0)"
  shows "\<exists>u4. fanOut env_list_only ctx 0 [Website ''1'' ''A'' ''a.com'']
                 ((logf LogStarting test_updater)\<lparr>client :=
                     (test_client ''tok'')\<lparr>calls :=
                        [api_request (test_client ''tok'') ''GET'' ''/api/websites''
                           [(''pageSize'', QStr ''1000'')] None]\<rparr>,
                     metrics := map_option reset_dynamic (metrics test_updater)\<rparr>) = Joined u4
              \<and> fetchAndUpdate env_list_only ctx test_updater
                  = Returned (commit (unix_sec env_list_only (length (calls (client u4)))) 1 u4)
              \<and> metrics u4 \<noteq> None
              \<and> logger u4 = [LogStarting, LogStatsError ''1'' ErrTransport,
                              LogActiveError ''1'' ErrTransport,
                              LogMetricsError ''1'' ''url'' ErrTransport]"
proof -
  have list: "GetWebsites env_list_only (client test_updater)
     = (Inr [Website ''1'' ''A'' ''a.com''],
        (test_client ''tok'')\<lparr>calls :=
           [api_request (test_client ''tok'') ''GET'' ''/api/websites''
              [(''pageSize'', QStr ''1000'')] None]\<rparr>)"
    by (simp add: test_updater_fields env_list_only_websites)
  have stats: "fst (GetWebsiteStats env_list_only wid c) = Inl ErrTransport
               \<and> token (snd (GetWebsiteStats env_list_only wid c)) = token c
               \<and> calls (snd (GetWebsiteStats env_list_only wid c)) \<noteq> []"
    if "token c \<noteq> []" "calls c \<noteq> []" for wid c
    using that by (simp add: GetWebsiteStats_def Let_def list_only_doRequest)
  have active: "fst (GetWebsiteActive env_list_only wid c) = Inl ErrTransport
               \<and> token (snd (GetWebsiteActive env_list_only wid c)) = token c
               \<and> calls (snd (GetWebsiteActive env_list_only wid c)) \<noteq> []"
    if "token c \<noteq> []" "calls c \<noteq> []" for wid c
    using that by (simp add: GetWebsiteActive_def list_only_doRequest)
  have series: "fst (GetWebsiteMetrics env_list_only wid ty n c) = Inl ErrTransport"
    if "token c \<noteq> []" "calls c \<noteq> []" for wid ty n c
    using that by (simp add: GetWebsiteMetrics_def Let_def list_only_doRequest)
  define c1 where "c1 = (test_client ''tok'')\<lparr>calls :=
           [api_request (test_client ''tok'') ''GET'' ''/api/websites''
              [(''pageSize'', QStr ''1000'')] None]\<rparr>"
  define u1 where "u1 = (logf LogStarting test_updater)\<lparr>client := c1,
        metrics := map_option reset_dynamic (metrics test_updater)\<rparr>"
  have c1: "token c1 \<noteq> []" "calls c1 \<noteq> []"
    by (simp_all add: c1_def test_client_fields)
  define c2 where "c2 = snd (GetWebsiteStats env_list_only ''1'' c1)"
  have c2: "token c2 \<noteq> []" "calls c2 \<noteq> []"
    using stats [OF c1] c1 by (simp_all add: c2_def)
  define c3 where "c3 = snd (GetWebsiteActive env_list_only ''1'' c2)"
  have c3: "token c3 \<noteq> []" "calls c3 \<noteq> []"
    using active [OF c2] c2 by (simp_all add: c3_def)
  define u2 where "u2 = logf (LogStatsError ''1'' ErrTransport) (u1\<lparr>client := c2\<rparr>)"
  define u3 where "u3 = logf (LogActiveError ''1'' ErrTransport) (u2\<lparr>client := c3\<rparr>)"
  have f1: "fetch_stats env_list_only (Website ''1'' ''A'' ''a.com'') u1 = Some u2"
    using stats [OF c1, of "''1''"]
    by (simp add: fetch_stats_def u1_def u2_def c2_def case_prod_beta)
  have f2: "fetch_active env_list_only (Website ''1'' ''A'' ''a.com'') u2 = Some u3"
    using active [OF c2, of "''1''"]
    by (simp add: fetch_active_def u2_def u3_def c3_def case_prod_beta)
  have ty3: "metricTypes u3 = [''url'']" "client u3 = c3"
    by (simp_all add: u3_def u2_def u1_def test_updater_fields)
  have f3: "\<exists>c4. fetch_types env_list_only (Website ''1'' ''A'' ''a.com'') [''url''] u3
              = Some (logf (LogMetricsError ''1'' ''url'' ErrTransport) (u3\<lparr>client := c4\<rparr>))"
    using series [OF c3, of "''1''" "''url''" "metricLimit u3"]
    by (auto simp: ty3 case_prod_beta)
  then obtain c4 where w: "worker env_list_only (Website ''1'' ''A'' ''a.com'') u1
              = Some (logf (LogMetricsError ''1'' ''url'' ErrTransport) (u3\<lparr>client := c4\<rparr>))"
    using f1 f2 by (auto simp: worker_def ty3)
  define u4 where "u4 = logf (LogMetricsError ''1'' ''url'' ErrTransport) (u3\<lparr>client := c4\<rparr>)"
  have conc: "concurrency u1 = 5"
    by (simp add: u1_def test_updater_fields)
  have fo: "fanOut env_list_only ctx 0 [Website ''1'' ''A'' ''a.com''] u1 = Joined u4"
    using w conc first by (simp add: u4_def)
  have c0: "0 \<le> concurrency test_updater"
    by (simp add: test_updater_fields)
  have run: "fetchAndUpdate env_list_only ctx test_updater
       = Returned (commit (unix_sec env_list_only (length (calls (client u4)))) 1 u4)"
    using fetchAndUpdate_listed [OF list c0, of ctx] fo
    unfolding u1_def c1_def by simp
  have lg: "logger u4 = [LogStarting, LogStatsError ''1'' ErrTransport,
                        LogActiveError ''1'' ErrTransport,
                        LogMetricsError ''1'' ''url'' ErrTransport]"
    by (simp add: u4_def u3_def u2_def u1_def test_updater_fields)
  have m4: "metrics u4 \<noteq> None"
    by (simp add: u4_def u3_def u2_def u1_def test_updater_fields)
  show ?thesis
    using fo [unfolded u1_def c1_def] run lg m4 by blast
qed



text \<open>
  C10, as amended. When the listing call succeeds and the select before the dispatch
  of some listed website finds the context done, a cycle that returns has not
  committed: the success flag, the last-fetch time and the two gauges that mirror them
  are what they were before the cycle, and the last line of the log is the one of the
  abort. With a positive capacity the cycle does return, unless a unit dispatched
  before that select has panicked.
\<close>

theorem fetchAndUpdate_cancelled:
  assumes list: "GetWebsites e (client u) = (Inr ws, c')"
    and i: "i < length ws"
    and cancelled: "ctx (AtSelect i)"
  shows "cancelled_before_all_dispatched ctx ws
         \<and> (\<forall>u'. fetchAndUpdate e ctx u = Returned u' \<longrightarrow>
            LastSuccess u' = LastSuccess u \<and> LastFetchUnix u' = LastFetchUnix u
            \<and> map_option FetchSuccess (metrics u') = map_option FetchSuccess (metrics u)
            \<and> map_option LastFetch (metrics u') = map_option LastFetch (metrics u)
            \<and> last (logger u') = LogCanceled)
         \<and> (0 < concurrency u
              \<and> fanOut e ctx 0 ws
                    ((logf LogStarting u)\<lparr>client := c',
                        metrics := map_option reset_dynamic (metrics u)\<rparr>) \<noteq> UnitPanicked
             \<longrightarrow> (\<exists>u'. fetchAndUpdate e ctx u = Returned u'))"
proof -
  define u1 where
    "u1 = (logf LogStarting u)\<lparr>client := c', metrics := map_option reset_dynamic (metrics u)\<rparr>"
  have u1: "lastSuccess u1 = lastSuccess u" "lastFetchUnix u1 = lastFetchUnix u"
    "concurrency u1 = concurrency u" "(metrics u1 = None) = (metrics u = None)"
    "map_option FetchSuccess (metrics u1) = map_option FetchSuccess (metrics u)"
    "map_option LastFetch (metrics u1) = map_option LastFetch (metrics u)"
    by (simp_all add: u1_def logf_def reset_dynamic_def option.map_comp comp_def)
  have not_joined: "fanOut e ctx 0 ws u1 \<noteq> Joined u2" for u2
    using fanOut_cancelled [where k = i and i = 0 and ws = ws and ctx = ctx] i cancelled by simp
  have run: "fetchAndUpdate e ctx u =
      (if concurrency u < 0 then Panicked
       else case fanOut e ctx 0 ws u1 of
              Aborted u2 \<Rightarrow> Returned u2
            | UnitPanicked \<Rightarrow> Panicked
            | SendBlocked \<Rightarrow> Blocked
            | Joined u2 \<Rightarrow>
                Returned (commit (unix_sec e (length (calls (client u2)))) (length ws) u2))"
    using list by (simp add: fetchAndUpdate_def Let_def u1_def [symmetric] u1(3))
  have a: "LastSuccess u' = LastSuccess u \<and> LastFetchUnix u' = LastFetchUnix u
            \<and> map_option FetchSuccess (metrics u') = map_option FetchSuccess (metrics u)
            \<and> map_option LastFetch (metrics u') = map_option LastFetch (metrics u)
            \<and> last (logger u') = LogCanceled"
    if ret: "fetchAndUpdate e ctx u = Returned u'" for u'
  proof -
    from ret have ab: "fanOut e ctx 0 ws u1 = Aborted u'"
      unfolding run using not_joined
      by (cases "fanOut e ctx 0 ws u1") (auto split: if_splits)
    from fanOut_Aborted_step [OF ab] obtain v where v: "unit_step u1 v" "u' = logf LogCanceled v"
      by blast
    then show ?thesis
      using u1 by (simp add: unit_step_def logf_def LastSuccess_def LastFetchUnix_def)
  qed
  have b: "\<exists>u'. fetchAndUpdate e ctx u = Returned u'"
    if "0 < concurrency u" "fanOut e ctx 0 ws u1 \<noteq> UnitPanicked"
  proof -
    have "(\<exists>u2. fanOut e ctx 0 ws u1 = Aborted u2) \<or> fanOut e ctx 0 ws u1 = UnitPanicked"
      using that(1) u1 i cancelled
      by (intro fanOut_aborts_or_panics [where k = i and i = 0]) simp_all
    with that(2) obtain u2 where "fanOut e ctx 0 ws u1 = Aborted u2"
      by blast
    then show ?thesis
      unfolding run using that(1) by auto
  qed
  have c: "cancelled_before_all_dispatched ctx ws"
    using i cancelled by (auto simp: cancelled_before_all_dispatched_def)
  from a b c show ?thesis
    unfolding u1_def [symmetric] by blast
qed

theorem fetchAndUpdate_cancelled_witness:
  "\<exists>u'. fetchAndUpdate env_list_only (\<lambda>p. True) prior_updater = Returned u'
        \<and> LastSuccess u'
        \<and> LastFetchUnix u' = 1699999940
        \<and> last (logger u') = LogCanceled"
proof -
  have list: "GetWebsites env_list_only (client prior_updater)
     = (Inr [Website ''1'' ''A'' ''a.com''],
        (test_client ''tok'')\<lparr>calls :=
           [api_request (test_client ''tok'') ''GET'' ''/api/websites''
              [(''pageSize'', QStr ''1000'')] None]\<rparr>)"
    by (simp add: prior_fields env_list_only_websites)
  have i: "0 < length [Website ''1'' ''A'' ''a.com'']"
    by simp
  have c: "(\<lambda>p::point. True) (AtSelect 0)"
    by simp
  have hyp: "0 < concurrency prior_updater
     \<and> fanOut env_list_only (\<lambda>p. True) 0 [Website ''1'' ''A'' ''a.com'']
          ((logf LogStarting prior_updater)\<lparr>client :=
              (test_client ''tok'')\<lparr>calls :=
                 [api_request (test_client ''tok'') ''GET'' ''/api/websites''
                    [(''pageSize'', QStr ''1000'')] None]\<rparr>,
              metrics := map_option reset_dynamic (metrics prior_updater)\<rparr>) \<noteq> UnitPanicked"
    by (simp add: prior_fields2)
  have before: "LastSuccess prior_updater" "LastFetchUnix prior_updater = 1699999940"
    by (simp_all add: LastSuccess_def LastFetchUnix_def prior_fields)
  note T = fetchAndUpdate_cancelled [OF list i, of "\<lambda>p. True", OF c]
  from T hyp obtain u' where r: "fetchAndUpdate env_list_only (\<lambda>p. True) prior_updater = Returned u'"
    by blast
  with T have "LastSuccess u' = LastSuccess prior_updater"
    "LastFetchUnix u' = LastFetchUnix prior_updater" "last (logger u') = LogCanceled"
    by blast+
  then show ?thesis
    using r before by auto
qed

text \<open>
  C10 as stated fails. The context is cancelled after the select for the only website
  and before its dispatch: it is done before all listed websites have been dispatched,
  but no select sees it. The unit is dispatched, the cycle joins and commits: the
  success flag goes from false to true and the last-fetch time from 0 to the clock's
  reading.
\<close>

theorem fetchAndUpdate_cancelled_counterexample:
  "cancelled_before_all_dispatched ctx_late [Website ''1'' ''A'' ''a.com'']
   \<and> fst (GetWebsites env_list_only (client test_updater)) = Inr [Website ''1'' ''A'' ''a.com'']
   \<and> \<not> LastSuccess test_updater
   \<and> LastFetchUnix test_updater = 0
   \<and> (\<exists>u'. fetchAndUpdate env_list_only ctx_late test_updater = Returned u'
          \<and> LastSuccess u'
          \<and> LastFetchUnix u' = 1700000000
          \<and> last (logger u') = LogFinished 1)"
proof -
  have a: "cancelled_before_all_dispatched ctx_late [Website ''1'' ''A'' ''a.com'']"
    by (simp add: cancelled_before_all_dispatched_def ctx_late_def)
  have b: "fst (GetWebsites env_list_only (client test_updater)) = Inr [Website ''1'' ''A'' ''a.com'']"
    by (simp add: test_updater_fields env_list_only_websites)
  have c: "\<not> LastSuccess test_updater" "LastFetchUnix test_updater = 0"
    by (simp_all add: LastSuccess_def LastFetchUnix_def test_updater_fields)
  have sec: "unix_sec env_list_only n = 1700000000" for n
    by (simp add: env_list_only_def test_env_def)
  have late: "\<not> ctx_late (AtSelect 0)"
    by (simp add: ctx_late_def)
  from list_only_cycle [of ctx_late, OF late] obtain u4 where
    run: "fetchAndUpdate env_list_only ctx_late test_updater
            = Returned (commit (unix_sec env_list_only (length (calls (client u4)))) 1 u4)"
    by auto
  have d: "LastSuccess (commit (unix_sec env_list_only (length (calls (client u4)))) 1 u4)"
    "LastFetchUnix (commit (unix_sec env_list_only (length (calls (client u4)))) 1 u4) = 1700000000"
    "last (logger (commit (unix_sec env_list_only (length (calls (client u4)))) 1 u4)) = LogFinished 1"
    by (simp_all add: commit_def logf_def LastSuccess_def LastFetchUnix_def sec)
  show ?thesis
    using a b c run d by blast
qed

subsection \<open>The scheduler\<close>







subsection \<open>Series labels\<close>

lemma entry_label_nonempty: "entry_label en \<noteq> []"
  by (simp add: entry_label_def placeholder_def Let_def)

lemma publish_entries_None:
  "(publish_entries w ty ens m = None)
     = (\<exists>en\<in>set ens. \<not> list_all ValidString (site_labels w @ [ty, entry_label en]))"
  by (induction ens arbitrary: m) (auto simp: set_gauge_def)

lemma publish_entries_dom:
  "publish_entries w ty ens m = Some m' \<Longrightarrow>
   dom (MetricValues m')
     = dom (MetricValues m) \<union> (\<lambda>en. site_labels w @ [ty, entry_label en]) ` set ens"
proof (induction ens arbitrary: m)
  case Nil
  then show ?case by simp
next
  case (Cons en ens)
  then obtain g where g: "set_gauge (MetricValues m) (site_labels w @ [ty, entry_label en]) (Y en) = Some g"
    and rest: "publish_entries w ty ens (m\<lparr>MetricValues := g\<rparr>) = Some m'"
    by (auto split: option.splits)
  from g have "dom g = insert (site_labels w @ [ty, entry_label en]) (dom (MetricValues m))"
    by (auto simp: set_gauge_def split: if_splits)
  with Cons.IH [OF rest] show ?case by auto
qed

lemma publish_entries_ok:
  "series_ok m \<Longrightarrow> publish_entries w ty ens m = Some m' \<Longrightarrow> series_ok m'"
  unfolding series_ok_def
  by (drule publish_entries_dom) (auto simp: site_labels_def entry_label_nonempty)

lemma sink_ok_client [simp]: "sink_ok (u\<lparr>client := c\<rparr>) = sink_ok u"
  by (simp add: sink_ok_def)

lemma sink_ok_logf [simp]: "sink_ok (logf msg u) = sink_ok u"
  by (simp add: sink_ok_def logf_def)

lemma with_metrics_sink:
  "with_metrics f u = Some u' \<Longrightarrow> sink_ok u
     \<Longrightarrow> (\<And>m m'. series_ok m \<Longrightarrow> f m = Some m' \<Longrightarrow> series_ok m')
     \<Longrightarrow> sink_ok u'"
  by (auto simp: with_metrics_def sink_ok_def split: option.splits)

lemma record_stats_series:
  "record_stats w s m = Some m' \<Longrightarrow> MetricValues m' = MetricValues m"
  by (auto simp: record_stats_def split: option.splits)

lemma record_active_series:
  "record_active w v m = Some m' \<Longrightarrow> MetricValues m' = MetricValues m"
  by (auto simp: record_active_def split: option.splits)

lemma record_stats_ok: "series_ok m \<Longrightarrow> record_stats w s m = Some m' \<Longrightarrow> series_ok m'"
  by (drule record_stats_series) (simp add: series_ok_def)

lemma record_active_ok: "series_ok m \<Longrightarrow> record_active w v m = Some m' \<Longrightarrow> series_ok m'"
  by (drule record_active_series) (simp add: series_ok_def)

lemma fetch_stats_sink: "fetch_stats e w u = Some u' \<Longrightarrow> sink_ok u \<Longrightarrow> sink_ok u'"
proof -
  assume f: "fetch_stats e w u = Some u'" and ok: "sink_ok u"
  obtain r c' where g: "GetWebsiteStats e (ID w) (client u) = (r, c')"
    by (cases "GetWebsiteStats e (ID w) (client u)")
  show ?thesis
  proof (cases r)
    case (Inl err)
    then show ?thesis using f g ok by (auto simp: fetch_stats_def)
  next
    case (Inr stats)
    then have "with_metrics (record_stats w stats) (u\<lparr>client := c'\<rparr>) = Some u'"
      using f g by (simp add: fetch_stats_def)
    then show ?thesis
      by (rule with_metrics_sink) (use ok in simp, rule record_stats_ok)
  qed
qed

lemma fetch_active_sink: "fetch_active e w u = Some u' \<Longrightarrow> sink_ok u \<Longrightarrow> sink_ok u'"
proof -
  assume f: "fetch_active e w u = Some u'" and ok: "sink_ok u"
  obtain r c' where g: "GetWebsiteActive e (ID w) (client u) = (r, c')"
    by (cases "GetWebsiteActive e (ID w) (client u)")
  show ?thesis
  proof (cases r)
    case (Inl err)
    then show ?thesis using f g ok by (auto simp: fetch_active_def)
  next
    case (Inr v)
    then have "with_metrics (record_active w v) (u\<lparr>client := c'\<rparr>) = Some u'"
      using f g by (simp add: fetch_active_def)
    then show ?thesis
      by (rule with_metrics_sink) (use ok in simp, rule record_active_ok)
  qed
qed

lemma fetch_types_sink: "fetch_types e w typs u = Some u' \<Longrightarrow> sink_ok u \<Longrightarrow> sink_ok u'"
proof (induction typs arbitrary: u)
  case Nil
  then show ?case by simp
next
  case (Cons ty tys)
  obtain r c' where g: "GetWebsiteMetrics e (ID w) ty (metricLimit u) (client u) = (r, c')"
    by (cases "GetWebsiteMetrics e (ID w) ty (metricLimit u) (client u)")
  show ?case
  proof (cases r)
    case (Inl err)
    then have "fetch_types e w tys (logf (LogMetricsError (ID w) ty err) (u\<lparr>client := c'\<rparr>)) = Some u'"
      using Cons.prems g by simp
    from Cons.IH [OF this] show ?thesis
      using Cons.prems(2) by simp
  next
    case (Inr entries)
    show ?thesis
    proof (cases "entries = []")
      case True
      then have "fetch_types e w tys (u\<lparr>client := c'\<rparr>) = Some u'"
        using Cons.prems g Inr by simp
      from Cons.IH [OF this] show ?thesis
        using Cons.prems(2) by simp
    next
      case False
      then obtain u1 where w1: "with_metrics (publish_entries w ty entries) (u\<lparr>client := c'\<rparr>) = Some u1"
        and rest: "fetch_types e w tys u1 = Some u'"
        using Cons.prems g Inr by (auto split: option.splits)
      have "sink_ok u1"
        using w1 by (rule with_metrics_sink) (use Cons.prems(2) in simp, rule publish_entries_ok)
      with rest show ?thesis by (rule Cons.IH)
    qed
  qed
qed

lemma worker_sink: "worker e w u = Some u' \<Longrightarrow> sink_ok u \<Longrightarrow> sink_ok u'"
  by (auto simp: worker_def split: option.splits
           dest!: fetch_stats_sink fetch_active_sink fetch_types_sink)

lemma fanOut_sink:
  "fanOut e ctx i ws u = Joined u' \<or> fanOut e ctx i ws u = Aborted u' \<Longrightarrow> sink_ok u \<Longrightarrow> sink_ok u'"
proof (induction ws arbitrary: i u)
  case Nil
  then show ?case by simp
next
  case (Cons w ws)
  show ?case
  proof (cases "ctx (AtSelect i)")
    case True
    then show ?thesis using Cons.prems by auto
  next
    case False
    then obtain u1 where 1: "worker e w u = Some u1"
      and 2: "fanOut e ctx (Suc i) ws u1 = Joined u' \<or> fanOut e ctx (Suc i) ws u1 = Aborted u'"
      using Cons.prems(1) by (auto split: if_splits option.splits)
    from worker_sink [OF 1 Cons.prems(2)] have "sink_ok u1" .
    with 2 show ?thesis by (rule Cons.IH)
  qed
qed

text \<open>
  C4. An entry whose label is the empty string is published under the placeholder, and
  the label under which an entry is published is never empty. The inner loop panics
  exactly when some tuple it has to write holds a value that is not valid UTF-8;
  otherwise it writes exactly the tuples made of the website's labels, the type and
  that label. After a cycle that returns, the series family of the sink either is what
  it was before the cycle (the listing failed) or holds only tuples of five labels
  whose value label is not empty.
\<close>

theorem series_labels_never_empty:
  "(X en = [] \<longrightarrow> entry_label en = placeholder)
   \<and> entry_label en \<noteq> [] \<and> placeholder \<noteq> []
   \<and> (publish_entries w ty ens m = None)
       = (\<exists>en\<in>set ens. \<not> list_all ValidString (site_labels w @ [ty, entry_label en]))
   \<and> (\<forall>m'. publish_entries w ty ens m = Some m' \<longrightarrow>
         dom (MetricValues m')
           = dom (MetricValues m) \<union> (\<lambda>en. site_labels w @ [ty, entry_label en]) ` set ens)
   \<and> (fetchAndUpdate e ctx u = Returned u' \<longrightarrow> metrics u = Some m0 \<longrightarrow>
        (\<exists>m'. metrics u' = Some m'
           \<and> (MetricValues m' = MetricValues m0
               \<or> (\<forall>ls \<in> dom (MetricValues m'). length ls = 5 \<and> ls ! 4 \<noteq> []))))"
proof -
  have a: "X en = [] \<longrightarrow> entry_label en = placeholder"
    by (simp add: entry_label_def TrimSpace_def)
  have b: "placeholder \<noteq> []"
    by (simp add: placeholder_def)
  have c: "\<exists>m'. metrics u' = Some m'
           \<and> (MetricValues m' = MetricValues m0
               \<or> (\<forall>ls \<in> dom (MetricValues m'). length ls = 5 \<and> ls ! 4 \<noteq> []))"
    if ret: "fetchAndUpdate e ctx u = Returned u'" and m0: "metrics u = Some m0"
  proof -
    obtain r c' where g: "GetWebsites e (client u) = (r, c')"
      by (cases "GetWebsites e (client u)")
    show ?thesis
    proof (cases r)
      case (Inl err)
      then show ?thesis
        using ret g m0 by (auto simp: fetchAndUpdate_def Let_def list_failed_def logf_def)
    next
      case (Inr ws)
      define u1 where
        "u1 = (logf LogStarting u)\<lparr>client := c', metrics := map_option reset_dynamic (metrics u)\<rparr>"
      have ok1: "sink_ok u1"
        by (simp add: u1_def sink_ok_def series_ok_def reset_dynamic_def m0)
      have some1: "metrics u1 \<noteq> None"
        by (simp add: u1_def m0)
      have nonneg: "0 \<le> concurrency u"
        using ret g Inr by (auto simp: fetchAndUpdate_def Let_def split: if_splits)
      note run = fetchAndUpdate_listed [OF g [unfolded Inr] nonneg, of ctx, folded u1_def]
      have fin: "sink_ok u' \<and> metrics u' \<noteq> None"
      proof (cases "fanOut e ctx 0 ws u1")
        case (Joined u2)
        then have "sink_ok u2" using fanOut_sink ok1 by blast
        moreover have "metrics u2 \<noteq> None"
          using fanOut_Joined_step [OF Joined] some1 by (simp add: unit_step_def)
        ultimately show ?thesis
          using ret run Joined
          by (auto simp: commit_def logf_def sink_ok_def series_ok_def)
      next
        case (Aborted u2)
        then have "sink_ok u2" using fanOut_sink ok1 by blast
        moreover from Aborted obtain v where v: "unit_step u1 v" "u2 = logf LogCanceled v"
          using fanOut_Aborted_step by blast
        then have "metrics u2 \<noteq> None"
          using some1 by (simp add: unit_step_def)
        ultimately show ?thesis
          using ret run Aborted by auto
      next
        case UnitPanicked
        then show ?thesis using ret run by simp
      next
        case SendBlocked
        then show ?thesis using ret run by simp
      qed
      then show ?thesis
        by (auto simp: sink_ok_def series_ok_def)
    qed
  qed
  have d: "\<forall>m'. publish_entries w ty ens m = Some m' \<longrightarrow>
         dom (MetricValues m')
           = dom (MetricValues m) \<union> (\<lambda>en. site_labels w @ [ty, entry_label en]) ` set ens"
    by (intro allI impI) (rule publish_entries_dom)
  have c': "fetchAndUpdate e ctx u = Returned u' \<longrightarrow> metrics u = Some m0 \<longrightarrow>
        (\<exists>m'. metrics u' = Some m'
           \<and> (MetricValues m' = MetricValues m0
               \<or> (\<forall>ls \<in> dom (MetricValues m'). length ls = 5 \<and> ls ! 4 \<noteq> [])))"
    by (intro impI) (rule c)
  show ?thesis
    by (intro conjI) (rule a entry_label_nonempty b publish_entries_None d c')+
qed

lemma scenario_doRequest:
  assumes "token c \<noteq> []" and "length (calls c) = n" and "n < 4"
    and "[''<websites>'', ''<stats>'', ''<active>'', ''<entries>''] ! n = b"
    and "dec b = Some v"
  shows "\<exists>c'. doRequest env_scenario m path q None (Some dec) c = (Inr (Some v), c')
              \<and> token c' = token c \<and> length (calls c') = Suc n"
proof -
  have "http_do env_scenario n r = Response 200 b" for r
    using assms(3,4)
    by (auto simp: env_scenario_def test_env_simps nth_Cons' split: if_splits)
  moreover have "request_valid env_scenario m u" for u
    by (simp add: env_scenario_def test_env_simps)
  ultimately show ?thesis
    using assms(1,2,5)
    by (simp add: doRequest_def ensureToken_def send_def finish_def Let_def)
qed

lemma scenario_decoders:
  "decode_websites env_scenario ''<websites>'' = Some [Website ''1'' ''A'' ''a.com'']"
  "decode_stats env_scenario ''<stats>'' = Some test_stats"
  "decode_active env_scenario ''<active>'' = Some 3"
  "decode_entries env_scenario ''<entries>'' = Some [\<lparr>X = [], Y = 7\<rparr>]"
  by (simp_all add: env_scenario_def test_env_def)

lemma ascii_ValidString:
  "ValidString ''1''" "ValidString ''A''" "ValidString ''a.com''" "ValidString ''url''"
  "ValidString ''<empty>''"
  by (simp_all add: byte_def)

theorem series_labels_never_empty_witness:
  "\<exists>u' m'. fetchAndUpdate env_scenario (\<lambda>p. False) prior_updater = Returned u'
        \<and> metrics u' = Some m'
        \<and> MetricValues m' [''1'', ''A'', ''a.com'', ''url'', ''<empty>''] = Some 7
        \<and> [''1'', ''A'', ''a.com'', ''url'', []] \<notin> dom (MetricValues m')
        \<and> (\<exists>m2. publish_entries (Website ''1'' ''A'' ''a.com'') ''url''
                  [\<lparr>X = [], Y = 7\<rparr>] New_metrics = Some m2
              \<and> dom (MetricValues m2) = {[''1'', ''A'', ''a.com'', ''url'', ''<empty>'']})"
proof -
  let ?e = env_scenario
  let ?w = "Website ''1'' ''A'' ''a.com''"
  let ?en = "\<lparr>X = [], Y = 7\<rparr> :: MetricEntry"
  note T = series_labels_never_empty [of ?en ?w "''url''" "[?en]" New_metrics ?e
      "\<lambda>p. False" prior_updater _ prior_metrics]
  have lab: "entry_label ?en = ''<empty>''"
    using T [THEN conjunct1] by (simp add: placeholder_def)
  have "publish_entries ?w ''url'' [?en] New_metrics \<noteq> None"
    unfolding T [THEN conjunct2, THEN conjunct2, THEN conjunct2, THEN conjunct1]
    by (simp add: lab site_labels_def ascii_ValidString del: ValidString.simps)
  then obtain m2 where p2: "publish_entries ?w ''url'' [?en] New_metrics = Some m2"
    by blast
  have "dom (MetricValues m2) = {[''1'', ''A'', ''a.com'', ''url'', ''<empty>'']}"
    using T [THEN conjunct2, THEN conjunct2, THEN conjunct2, THEN conjunct2, THEN conjunct1,
             THEN spec, THEN mp, OF p2]
    by (simp add: New_metrics_def site_labels_def lab)
  with p2 have dom1: "\<exists>m2. publish_entries ?w ''url'' [?en] New_metrics = Some m2
              \<and> dom (MetricValues m2) = {[''1'', ''A'', ''a.com'', ''url'', ''<empty>'']}"
    by blast
  have c0: "token (client prior_updater) \<noteq> []" "length (calls (client prior_updater)) = 0"
    by (simp_all add: prior_fields test_client_fields)
  have "\<exists>c'. doRequest ?e ''GET'' ''/api/websites'' [(''pageSize'', QStr ''1000'')] None
               (Some (decode_websites ?e)) (client prior_updater) = (Inr (Some [?w]), c')
              \<and> token c' = token (client prior_updater) \<and> length (calls c') = Suc 0"
    by (rule scenario_doRequest [where b = "''<websites>''"])
       (simp_all add: c0 scenario_decoders)
  then obtain c1 where d1: "doRequest ?e ''GET'' ''/api/websites'' [(''pageSize'', QStr ''1000'')] None
               (Some (decode_websites ?e)) (client prior_updater) = (Inr (Some [?w]), c1)"
    and c1: "token c1 \<noteq> []" "length (calls c1) = 1"
    using c0 by (elim exE conjE) simp
  have g1: "GetWebsites ?e (client prior_updater) = (Inr [?w], c1)"
    by (simp add: GetWebsites_def d1)
  have "\<exists>c'. doRequest ?e ''GET'' (''/api/websites/'' @ ''1'' @ ''/stats'')
               [(''startAt'', QInt (unix_milli ?e (length (calls c1)) - thirty_days_ms)),
                (''endAt'', QInt (unix_milli ?e (length (calls c1))))] None
               (Some (decode_stats ?e)) c1 = (Inr (Some test_stats), c')
              \<and> token c' = token c1 \<and> length (calls c') = Suc 1"
    by (rule scenario_doRequest [where b = "''<stats>''"])
       (simp_all add: c1 scenario_decoders)
  then obtain c2 where d2: "doRequest ?e ''GET'' (''/api/websites/'' @ ''1'' @ ''/stats'')
               [(''startAt'', QInt (unix_milli ?e (length (calls c1)) - thirty_days_ms)),
                (''endAt'', QInt (unix_milli ?e (length (calls c1))))] None
               (Some (decode_stats ?e)) c1 = (Inr (Some test_stats), c2)"
    and c2: "token c2 \<noteq> []" "length (calls c2) = 2"
    using c1 by (elim exE conjE) simp
  have g2: "GetWebsiteStats ?e ''1'' c1 = (Inr test_stats, c2)"
    unfolding GetWebsiteStats_def Let_def d2 by simp
  have "\<exists>c'. doRequest ?e ''GET'' (''/api/websites/'' @ ''1'' @ ''/active'') [] None
               (Some (decode_active ?e)) c2 = (Inr (Some 3), c')
              \<and> token c' = token c2 \<and> length (calls c') = Suc 2"
    by (rule scenario_doRequest [where b = "''<active>''"])
       (simp_all add: c2 scenario_decoders)
  then obtain c3 where d3: "doRequest ?e ''GET'' (''/api/websites/'' @ ''1'' @ ''/active'') [] None
               (Some (decode_active ?e)) c2 = (Inr (Some 3), c3)"
    and c3: "token c3 \<noteq> []" "length (calls c3) = 3"
    using c2 by (elim exE conjE) simp
  have g3: "GetWebsiteActive ?e ''1'' c2 = (Inr 3, c3)"
    unfolding GetWebsiteActive_def d3 by simp
  have "\<exists>c'. doRequest ?e ''GET'' (''/api/websites/'' @ ''1'' @ ''/metrics'')
               ([(''type'', QStr ''url''),
                 (''startAt'', QInt (unix_milli ?e (length (calls c3)) - thirty_days_ms)),
                 (''endAt'', QInt (unix_milli ?e (length (calls c3))))]
                @ (if (100::int) > 0 then [(''limit'', QInt 100)] else [])) None
               (Some (decode_entries ?e)) c3 = (Inr (Some [?en]), c')
              \<and> token c' = token c3 \<and> length (calls c') = Suc 3"
    by (rule scenario_doRequest [where b = "''<entries>''"])
       (simp_all add: c3 scenario_decoders)
  then obtain c4 where d4: "doRequest ?e ''GET'' (''/api/websites/'' @ ''1'' @ ''/metrics'')
               ([(''type'', QStr ''url''),
                 (''startAt'', QInt (unix_milli ?e (length (calls c3)) - thirty_days_ms)),
                 (''endAt'', QInt (unix_milli ?e (length (calls c3))))]
                @ (if (100::int) > 0 then [(''limit'', QInt 100)] else [])) None
               (Some (decode_entries ?e)) c3 = (Inr (Some [?en]), c4)"
    by (elim exE conjE)
  have g4: "GetWebsiteMetrics ?e ''1'' ''url'' 100 c3 = (Inr [?en], c4)"
    unfolding GetWebsiteMetrics_def Let_def d4 by simp
  define u1 where "u1 = (logf LogStarting prior_updater)\<lparr>client := c1,
        metrics := map_option reset_dynamic (metrics prior_updater)\<rparr>"
  define m1 where "m1 = reset_dynamic prior_metrics"
  have "\<exists>m2. record_stats ?w test_stats m1 = Some m2 \<and> MetricValues m2 = MetricValues m1"
    by (simp add: record_stats_def set_gauge_def site_labels_def ascii_ValidString
          del: ValidString.simps)
  then obtain m2 where r2: "record_stats ?w test_stats m1 = Some m2"
    and v2: "MetricValues m2 = MetricValues m1"
    by blast
  have "\<exists>m3. record_active ?w 3 m2 = Some m3 \<and> MetricValues m3 = MetricValues m2"
    by (simp add: record_active_def set_gauge_def site_labels_def ascii_ValidString
          del: ValidString.simps)
  then obtain m3 where r3: "record_active ?w 3 m2 = Some m3"
    and v3: "MetricValues m3 = MetricValues m2"
    by blast
  define m4 where "m4 = m3\<lparr>MetricValues :=
      (MetricValues m3)([''1'', ''A'', ''a.com'', ''url'', ''<empty>''] \<mapsto> 7)\<rparr>"
  have r4: "publish_entries ?w ''url'' [?en] m3 = Some m4"
    by (simp add: set_gauge_def lab m4_def site_labels_def ascii_ValidString
          del: ValidString.simps)
  have u1: "client u1 = c1" "metrics u1 = Some m1" "metricTypes u1 = [''url'']"
    "metricLimit u1 = 100" "concurrency u1 = 5"
    by (simp_all add: u1_def m1_def prior_fields prior_fields2)
  have f1: "fetch_stats ?e ?w u1 = Some (u1\<lparr>client := c2, metrics := Some m2\<rparr>)"
    by (simp add: fetch_stats_def u1 g2 with_metrics_def r2)
  have f2: "fetch_active ?e ?w (u1\<lparr>client := c2, metrics := Some m2\<rparr>)
      = Some (u1\<lparr>client := c3, metrics := Some m3\<rparr>)"
    by (simp add: fetch_active_def u1 g3 with_metrics_def r3)
  have f3: "fetch_types ?e ?w [''url''] (u1\<lparr>client := c3, metrics := Some m3\<rparr>)
      = Some (u1\<lparr>client := c4, metrics := Some m4\<rparr>)"
    by (simp add: u1 g4 with_metrics_def r4 del: publish_entries.simps)
  have wk: "worker ?e ?w u1 = Some (u1\<lparr>client := c4, metrics := Some m4\<rparr>)"
    by (simp add: worker_def f1 f2 u1 f3 del: fetch_types.simps)
  have fo: "fanOut ?e (\<lambda>p. False) 0 [?w] u1 = Joined (u1\<lparr>client := c4, metrics := Some m4\<rparr>)"
    by (simp add: wk u1 del: fetch_types.simps)
  have nonneg: "0 \<le> concurrency prior_updater"
    by (simp add: prior_fields2)
  have run: "fetchAndUpdate ?e (\<lambda>p. False) prior_updater
      = Returned (commit (unix_sec ?e (length (calls c4))) 1 (u1\<lparr>client := c4, metrics := Some m4\<rparr>))"
    using fetchAndUpdate_listed [OF g1 nonneg, of "\<lambda>p. False", folded u1_def] fo by simp
  define u' where "u' = commit (unix_sec ?e (length (calls c4))) 1 (u1\<lparr>client := c4, metrics := Some m4\<rparr>)"
  define m' where "m' = m4\<lparr>FetchSuccess := 1, LastFetch := of_int (unix_sec ?e (length (calls c4)))\<rparr>"
  have mu: "metrics u' = Some m'"
    by (simp add: u'_def m'_def commit_def)
  have mv: "MetricValues m' = [[''1'', ''A'', ''a.com'', ''url'', ''<empty>''] \<mapsto> 7]"
    by (simp add: m'_def m4_def v3 v2 m1_def reset_dynamic_def)
  have pm: "metrics prior_updater = Some prior_metrics"
    by (simp add: prior_fields)
  from series_labels_never_empty [of ?en ?w "''url''" "[?en]" New_metrics ?e
      "\<lambda>p. False" prior_updater u' prior_metrics, THEN conjunct2, THEN conjunct2,
      THEN conjunct2, THEN conjunct2, THEN conjunct2, THEN mp, THEN mp,
      OF run [folded u'_def] pm] mu
  have "MetricValues m' = MetricValues prior_metrics
        \<or> (\<forall>ls \<in> dom (MetricValues m'). length ls = 5 \<and> ls ! 4 \<noteq> [])"
    by simp
  then have "[''1'', ''A'', ''a.com'', ''url'', []] \<notin> dom (MetricValues m')"
  proof
    assume "MetricValues m' = MetricValues prior_metrics"
    then show ?thesis by (simp add: prior_metrics_def)
  next
    assume all: "\<forall>ls \<in> dom (MetricValues m'). length ls = 5 \<and> ls ! 4 \<noteq> []"
    show ?thesis
    proof
      assume "[''1'', ''A'', ''a.com'', ''url'', []] \<in> dom (MetricValues m')"
      with all have "[''1'', ''A'', ''a.com'', ''url'', []] ! 4 \<noteq> ([] :: string)"
        by blast
      then show False by simp
    qed
  qed
  then show ?thesis
    using run [folded u'_def] mu mv dom1 by auto
qed

end
